theory Spec2Isabelle
  imports Main "HOL-Library.Word" "HOL-Library.Sublist" "HOL-Library.Log_Nat"
begin

text \<open>
  A model of the formatter tool of pod021 (\<open>detectResponseType\<close>,
  \<open>formatToPod021Style\<close>, \<open>extractAdditionalInfo\<close>, \<open>generatePod021Response\<close>,
  \<open>applyIntimacyPhase\<close>) and of the class \<open>IntimacyManager\<close> of the pod042 agent,
  followed by the properties of the specification that hold of them and the corrections of
  those that do not.
\<close>

section \<open>JavaScript strings\<close>

text \<open>
  A JavaScript string is a sequence of 16-bit code units.  Every character of the
  literals used by the formatter tool and by the intimacy manager lies in the Basic
  Multilingual Plane, so each of them is one code unit; the literals are written below
  as lists of code units, named after their reading.
\<close>

type_synonym unit16 = "16 word"
type_synonym jsstr = "unit16 list"

named_theorems lits \<open>the string literals of the source\<close>

text \<open>\<open>String.prototype.includes\<close>: does the pattern occur as a contiguous substring?\<close>

fun str_includes :: "jsstr \<Rightarrow> jsstr \<Rightarrow> bool" where
  "str_includes [] p = (p = [])"
| "str_includes (x # xs) p = (prefix p (x # xs) \<or> str_includes xs p)"

text \<open>\<open>String.prototype.endsWith\<close>.\<close>

definition endsWith :: "jsstr \<Rightarrow> jsstr \<Rightarrow> bool" where
  "endsWith s p = suffix p s"

text \<open>
  \<open>String.prototype.replace\<close> with a string pattern: only the first occurrence is
  replaced (the replacement texts of the source contain no \<open>$\<close>, so they are literal).
\<close>

fun replaceFirst :: "jsstr \<Rightarrow> jsstr \<Rightarrow> jsstr \<Rightarrow> jsstr" where
  "replaceFirst p rep [] = (if p = [] then rep else [])"
| "replaceFirst p rep (x # xs) =
     (if prefix p (x # xs) then rep @ drop (length p) (x # xs)
      else x # replaceFirst p rep xs)"

text \<open>
  White space as \<open>\s\<close> and \<open>String.prototype.trim\<close> see it: the WhiteSpace and
  LineTerminator code points of ECMAScript.
\<close>

definition isSpace :: "unit16 \<Rightarrow> bool" where
  "isSpace c \<longleftrightarrow>
     c = 0x09 \<or> c = 0x0A \<or> c = 0x0B \<or> c = 0x0C \<or> c = 0x0D \<or> c = 0x20 \<or> c = 0xA0 \<or>
     c = 0x1680 \<or> (0x2000 \<le> c \<and> c \<le> 0x200A) \<or> c = 0x2028 \<or> c = 0x2029 \<or>
     c = 0x202F \<or> c = 0x205F \<or> c = 0x3000 \<or> c = 0xFEFF"

text \<open>\<open>\d\<close> without the unicode flag: the ASCII digits.\<close>

definition isDigit :: "unit16 \<Rightarrow> bool" where
  "isDigit c \<longleftrightarrow> 0x30 \<le> c \<and> c \<le> 0x39"

definition trim :: "jsstr \<Rightarrow> jsstr" where
  "trim s = rev (dropWhile isSpace (rev (dropWhile isSpace s)))"

section \<open>Regular expressions\<close>

text \<open>
  The fragment of regular expressions the source uses: literal text, the classes
  \<open>\d\<close> and \<open>\s\<close>, sequence, alternation, the greedy \<open>?\<close>, and the greedy
  \<open>+\<close> and \<open>*\<close> applied to one character or class.  \<open>rxm r s\<close> lists the
  remainders of \<open>s\<close> after every way \<open>r\<close> can match a prefix of \<open>s\<close>, in the order a
  backtracking matcher tries them; the head of the list is the match JavaScript reports.
\<close>

datatype cls = Digit | Space | Only unit16

fun inCls :: "cls \<Rightarrow> unit16 \<Rightarrow> bool" where
  "inCls Digit c = isDigit c"
| "inCls Space c = isSpace c"
| "inCls (Only d) c = (c = d)"

datatype rx = Str jsstr | Cls cls | Seq rx rx | Alt rx rx | Opt rx | Plus cls | Star cls

fun rxm :: "rx \<Rightarrow> jsstr \<Rightarrow> jsstr list" where
  "rxm (Str p) s = (if prefix p s then [drop (length p) s] else [])"
| "rxm (Cls c) s = (case s of [] \<Rightarrow> [] | x # xs \<Rightarrow> if inCls c x then [xs] else [])"
| "rxm (Seq a b) s = concat (map (rxm b) (rxm a s))"
| "rxm (Alt a b) s = rxm a s @ rxm b s"
| "rxm (Opt a) s = rxm a s @ [s]"
| "rxm (Plus c) s = map (\<lambda>k. drop k s) (rev [1 ..< Suc (length (takeWhile (inCls c) s))])"
| "rxm (Star c) s = map (\<lambda>k. drop k s) (rev [0 ..< Suc (length (takeWhile (inCls c) s))])"

text \<open>The number of code units the regular expression matches at the start of \<open>s\<close>.\<close>

definition matchAt :: "rx \<Rightarrow> jsstr \<Rightarrow> nat option" where
  "matchAt r s = (case rxm r s of [] \<Rightarrow> None | t # _ \<Rightarrow> Some (length s - length t))"

text \<open>
  \<open>String.prototype.match\<close> with a regular expression without the \<open>g\<close> flag: the
  leftmost match; the result is the matched text (element \<open>0\<close> of the match array).
\<close>

fun str_match :: "rx \<Rightarrow> jsstr \<Rightarrow> jsstr option" where
  "str_match r [] = (case matchAt r [] of None \<Rightarrow> None | Some n \<Rightarrow> Some [])"
| "str_match r (x # xs) =
     (case matchAt r (x # xs) of None \<Rightarrow> str_match r xs | Some n \<Rightarrow> Some (take n (x # xs)))"

text \<open>
  \<open>String.prototype.replace\<close> with a regular expression with the \<open>g\<close> flag: the
  subject is scanned from the left, every match is replaced and the scan goes on behind
  it; after an empty match the scan copies one code unit and goes on.
\<close>

function replace_g :: "rx \<Rightarrow> jsstr \<Rightarrow> jsstr \<Rightarrow> jsstr" where
  "replace_g r rep [] = (case matchAt r [] of None \<Rightarrow> [] | Some n \<Rightarrow> rep)"
| "replace_g r rep (x # xs) =
     (case matchAt r (x # xs) of
        None \<Rightarrow> x # replace_g r rep xs
      | Some n \<Rightarrow> if n = 0 then rep @ x # replace_g r rep xs
                  else rep @ replace_g r rep (drop n (x # xs)))"
  by pat_completeness auto
termination
  by (relation "measure (\<lambda>(r, rep, s). length s)") auto

declare replace_g.simps [simp del]

section \<open>The response types\<close>

text \<open>
  \<open>ResponseType\<close> is a closed enumeration of eight strings:
  houkoku (report), teian (suggestion), kaitou (answer), shounin (acknowledgment),
  ryoukai (understanding), bunseki (analysis), keikoku (warning), kakunin (confirmation).
\<close>

datatype ResponseTypeEnum =
  Houkoku | Teian | Kaitou | Shounin | Ryoukai | Bunseki | Keikoku | Kakunin

fun label :: "ResponseTypeEnum \<Rightarrow> jsstr" where
  "label Houkoku = [0x5831, 0x544A]"
| "label Teian = [0x63D0, 0x6848]"
| "label Kaitou = [0x56DE, 0x7B54]"
| "label Shounin = [0x627F, 0x8A8D]"
| "label Ryoukai = [0x4E86, 0x89E3]"
| "label Bunseki = [0x5206, 0x6790]"
| "label Keikoku = [0x8B66, 0x544A]"
| "label Kakunin = [0x78BA, 0x8A8D]"

definition ResponseType :: "ResponseTypeEnum list" where
  "ResponseType = [Houkoku, Teian, Kaitou, Shounin, Ryoukai, Bunseki, Keikoku, Kakunin]"


section \<open>The string literals\<close>

text \<open>The terminal mark (ideographic full stop, U+3002) and the ASCII space.\<close>

definition maru :: jsstr where [lits]:
  "maru = [0x3002]"

definition space :: jsstr where [lits]:
  "space = [0x0020]"

text \<open>
  The keywords of \<open>detectResponseType\<close>, in the order of the source: tsuika (add),
  touroku (register), settei (set); wakari, ryoukai, jikkou; osusume, teian,
  \<open>~shitemite\<close>; keikoku, chuui, kiken; bunseki, deeta, toukei; the full-width
  question mark, kakunin, yoroshii; and for the context the full-width question mark,
  oshiete and dou.
\<close>

definition kw_tsuika :: jsstr where [lits]:
  "kw_tsuika = [0x8FFD, 0x52A0]"

definition kw_touroku :: jsstr where [lits]:
  "kw_touroku = [0x767B, 0x9332]"

definition kw_settei :: jsstr where [lits]:
  "kw_settei = [0x8A2D, 0x5B9A]"

definition kw_wakari :: jsstr where [lits]:
  "kw_wakari = [0x308F, 0x304B, 0x308A]"

definition kw_ryoukai :: jsstr where [lits]:
  "kw_ryoukai = [0x4E86, 0x89E3]"

definition kw_jikkou :: jsstr where [lits]:
  "kw_jikkou = [0x5B9F, 0x884C]"

definition kw_osusume :: jsstr where [lits]:
  "kw_osusume = [0x304A, 0x3059, 0x3059, 0x3081]"

definition kw_teian :: jsstr where [lits]:
  "kw_teian = [0x63D0, 0x6848]"

definition kw_shitemite :: jsstr where [lits]:
  "kw_shitemite = [0x301C, 0x3057, 0x3066, 0x307F, 0x3066]"

definition kw_keikoku :: jsstr where [lits]:
  "kw_keikoku = [0x8B66, 0x544A]"

definition kw_chuui :: jsstr where [lits]:
  "kw_chuui = [0x6CE8, 0x610F]"

definition kw_kiken :: jsstr where [lits]:
  "kw_kiken = [0x5371, 0x967A]"

definition kw_bunseki :: jsstr where [lits]:
  "kw_bunseki = [0x5206, 0x6790]"

definition kw_deeta :: jsstr where [lits]:
  "kw_deeta = [0x30C7, 0x30FC, 0x30BF]"

definition kw_toukei :: jsstr where [lits]:
  "kw_toukei = [0x7D71, 0x8A08]"

definition kw_question :: jsstr where [lits]:
  "kw_question = [0xFF1F]"

definition kw_kakunin :: jsstr where [lits]:
  "kw_kakunin = [0x78BA, 0x8A8D]"

definition kw_yoroshii :: jsstr where [lits]:
  "kw_yoroshii = [0x3088, 0x308D, 0x3057, 0x3044]"

definition kw_oshiete :: jsstr where [lits]:
  "kw_oshiete = [0x6559, 0x3048, 0x3066]"

definition kw_dou :: jsstr where [lits]:
  "kw_dou = [0x3069, 0x3046]"

text \<open>
  The patterns and replacement texts of \<open>formatToPod021Style\<close>, in the order of the
  source.
\<close>

definition p_desu :: jsstr where [lits]:
  "p_desu = [0x3067, 0x3059]"

definition p_masu :: jsstr where [lits]:
  "p_masu = [0x307E, 0x3059]"

definition p_deshou :: jsstr where [lits]:
  "p_deshou = [0x3067, 0x3057, 0x3087, 0x3046]"

definition p_datoomoimasu :: jsstr where [lits]:
  "p_datoomoimasu = [0x3060, 0x3068, 0x601D, 0x3044, 0x307E, 0x3059]"

definition r_tohandansuru :: jsstr where [lits]:
  "r_tohandansuru = [0x3068, 0x5224, 0x65AD, 0x3059, 0x308B]"

definition p_kamoshiremasen :: jsstr where [lits]:
  "p_kamoshiremasen = [0x301C, 0x304B, 0x3082, 0x3057, 0x308C, 0x307E, 0x305B, 0x3093]"

definition r_nokanouseigaaru :: jsstr where [lits]:
  "r_nokanouseigaaru = [0x301C, 0x306E, 0x53EF, 0x80FD, 0x6027, 0x304C, 0x3042, 0x308B]"

definition p_otsukaresama :: jsstr where [lits]:
  "p_otsukaresama = [0x304A, 0x75B2, 0x308C, 0x69D8]"

definition p_arigatou :: jsstr where [lits]:
  "p_arigatou = [0x3042, 0x308A, 0x304C, 0x3068, 0x3046]"

definition p_sumimasen :: jsstr where [lits]:
  "p_sumimasen = [0x3059, 0x307F, 0x307E, 0x305B, 0x3093]"

definition p_osoreiri :: jsstr where [lits]:
  "p_osoreiri = [0x6050, 0x308C, 0x5165, 0x308A]"

definition p_ureshii :: jsstr where [lits]:
  "p_ureshii = [0x5B09, 0x3057, 0x3044]"

definition r_konomashiijoutai :: jsstr where [lits]:
  "r_konomashiijoutai = [0x597D, 0x307E, 0x3057, 0x3044, 0x72B6, 0x614B]"

definition p_tanoshii :: jsstr where [lits]:
  "p_tanoshii = [0x697D, 0x3057, 0x3044]"

definition r_kouritsuteki :: jsstr where [lits]:
  "r_kouritsuteki = [0x52B9, 0x7387, 0x7684]"

definition p_kanashii :: jsstr where [lits]:
  "p_kanashii = [0x60B2, 0x3057, 0x3044]"

definition r_hikouritsutekijoutai :: jsstr where [lits]:
  "r_hikouritsutekijoutai = [0x975E, 0x52B9, 0x7387, 0x7684, 0x72B6, 0x614B]"

definition p_odoroku :: jsstr where [lits]:
  "p_odoroku = [0x9A5A, 0x304F]"

definition r_yokishinaijishou :: jsstr where [lits]:
  "r_yokishinaijishou = [0x4E88, 0x671F, 0x3057, 0x306A, 0x3044, 0x4E8B, 0x8C61]"

definition p_kandou :: jsstr where [lits]:
  "p_kandou = [0x611F, 0x52D5]"

definition r_koukatekihannou :: jsstr where [lits]:
  "r_koukatekihannou = [0x52B9, 0x679C, 0x7684, 0x53CD, 0x5FDC]"

definition p_watashiwa :: jsstr where [lits]:
  "p_watashiwa = [0x79C1, 0x306F]"

definition r_toukiwa :: jsstr where [lits]:
  "r_toukiwa = [0x5F53, 0x6A5F, 0x306F]"

definition p_bokuwa :: jsstr where [lits]:
  "p_bokuwa = [0x50D5, 0x306F]"

definition p_anata :: jsstr where [lits]:
  "p_anata = [0x3042, 0x306A, 0x305F]"

definition r_yuuzaa :: jsstr where [lits]:
  "r_yuuzaa = [0x30E6, 0x30FC, 0x30B6, 0x30FC]"

definition p_kimi :: jsstr where [lits]:
  "p_kimi = [0x541B]"

definition p_dekimashita :: jsstr where [lits]:
  "p_dekimashita = [0x3067, 0x304D, 0x307E, 0x3057, 0x305F]"

definition r_kanryou :: jsstr where [lits]:
  "r_kanryou = [0x5B8C, 0x4E86]"

definition p_shimashita :: jsstr where [lits]:
  "p_shimashita = [0x3057, 0x307E, 0x3057, 0x305F]"

definition r_jikkou :: jsstr where [lits]:
  "r_jikkou = [0x5B9F, 0x884C]"

definition p_mitsukemashita :: jsstr where [lits]:
  "p_mitsukemashita = [0x898B, 0x3064, 0x3051, 0x307E, 0x3057, 0x305F]"

definition r_kenshutsu :: jsstr where [lits]:
  "r_kenshutsu = [0x691C, 0x51FA]"

definition p_shirabemashita :: jsstr where [lits]:
  "p_shirabemashita = [0x8ABF, 0x3079, 0x307E, 0x3057, 0x305F]"

definition r_kaiseki :: jsstr where [lits]:
  "r_kaiseki = [0x89E3, 0x6790]"

text \<open>
  The texts of \<open>extractAdditionalInfo\<close>, \<open>generatePod021Response\<close> and
  \<open>applyIntimacyPhase\<close>.
\<close>

definition u_ken :: jsstr where [lits]:
  "u_ken = [0x4EF6]"

definition t_genzai :: jsstr where [lits]:
  "t_genzai = [0x3010, 0x73FE, 0x5728]"

definition t_ken_close :: jsstr where [lits]:
  "t_ken_close = [0x4EF6, 0x3011]"

definition u_ji :: jsstr where [lits]:
  "u_ji = [0x6642]"

definition u_fun :: jsstr where [lits]:
  "u_fun = [0x5206]"

definition t_open :: jsstr where [lits]:
  "t_open = [0x3010]"

definition t_nijikkou :: jsstr where [lits]:
  "t_nijikkou = [0x306B, 0x5B9F, 0x884C, 0x3011]"

definition t_deetaryou :: jsstr where [lits]:
  "t_deetaryou = [0x3010, 0x30C7, 0x30FC, 0x30BF, 0x91CF, 0x003A, 0x0020]"

definition t_close :: jsstr where [lits]:
  "t_close = [0x3011]"

definition u_MB :: jsstr where [lits]:
  "u_MB = [0x004D, 0x0042]"

definition u_GB :: jsstr where [lits]:
  "u_GB = [0x0047, 0x0042]"

definition u_ko :: jsstr where [lits]:
  "u_ko = [0x500B]"

definition u_colon :: jsstr where [lits]:
  "u_colon = [0x003A]"

definition u_dot :: jsstr where [lits]:
  "u_dot = [0x002E]"

definition t_header_colon :: jsstr where [lits]:
  "t_header_colon = [0xFF1A]"

definition t_touki_shori :: jsstr where [lits]:
  "t_touki_shori = [0x5F53, 0x6A5F, 0x306F, 0x5FC5, 0x8981, 0x306A, 0x51E6, 0x7406, 0x3092, 0x5B9F, 0x884C, 0x3057, 0x305F, 0x306E, 0x307F, 0x3067, 0x3042, 0x308B]"

definition t_shikashi :: jsstr where [lits]:
  "t_shikashi = [0x2026, 0x2026, 0x3057, 0x304B, 0x3057, 0x3001, 0x305D, 0x306E, 0x8A00, 0x8449, 0x306F, 0x597D, 0x307E, 0x3057, 0x3044, 0x53CD, 0x5FDC, 0x3068, 0x8A8D, 0x8B58, 0x3002]"

definition t_shinmitsudo :: jsstr where [lits]:
  "t_shinmitsudo = [0x89AA, 0x5BC6, 0x5EA6]"

definition t_sesshoku :: jsstr where [lits]:
  "t_sesshoku = [0x63A5, 0x89E6]"

definition t_koui :: jsstr where [lits]:
  "t_koui = [0x3002, 0x5F53, 0x6A5F, 0x306F, 0x3001, 0x975E, 0x6226, 0x95D8, 0x884C, 0x70BA, 0x3067, 0x3042, 0x3063, 0x3066, 0x3082, 0x3001, 0x305D, 0x306E, 0x63A5, 0x89E6, 0x3092, 0x597D, 0x610F, 0x7684, 0x3068, 0x5224, 0x65AD, 0x3059, 0x308B, 0x3002]"

text \<open>The markers of \<open>updateIntimacy\<close>: arigatou, tasukaru, poddo, suki, nade.\<close>

definition m_arigatou :: jsstr where [lits]:
  "m_arigatou = [0x3042, 0x308A, 0x304C, 0x3068, 0x3046]"

definition m_tasukaru :: jsstr where [lits]:
  "m_tasukaru = [0x52A9, 0x304B, 0x308B]"

definition m_poddo :: jsstr where [lits]:
  "m_poddo = [0x30DD, 0x30C3, 0x30C9]"

definition m_suki :: jsstr where [lits]:
  "m_suki = [0x597D, 0x304D]"

definition m_nade :: jsstr where [lits]:
  "m_nade = [0x64AB, 0x3067]"

section \<open>The formatter tool\<close>

subsection \<open>detectResponseType\<close>

text \<open>
  \<open>String.prototype.toLowerCase\<close> belongs to the runtime, not to the repository; it
  is a parameter of the model.  \<open>context?.toLowerCase() || ''\<close> is the empty string
  when the context is absent or lowers to the empty string.  The rules are tried in the
  order of the source and the first that matches returns.
\<close>

definition detectResponseType ::
  "(jsstr \<Rightarrow> jsstr) \<Rightarrow> jsstr \<Rightarrow> jsstr option \<Rightarrow> ResponseTypeEnum" where
  "detectResponseType toLowerCase response context =
     (let lowerResponse = toLowerCase response;
          lowerContext = (case context of None \<Rightarrow> []
                          | Some c \<Rightarrow> if toLowerCase c = [] then [] else toLowerCase c)
      in if str_includes lowerResponse kw_tsuika \<or> str_includes lowerResponse kw_touroku
            \<or> str_includes lowerResponse kw_settei then Shounin
         else if str_includes lowerResponse kw_wakari \<or> str_includes lowerResponse kw_ryoukai
            \<or> str_includes lowerResponse kw_jikkou then Ryoukai
         else if str_includes lowerResponse kw_osusume \<or> str_includes lowerResponse kw_teian
            \<or> str_includes lowerResponse kw_shitemite then Teian
         else if str_includes lowerResponse kw_keikoku \<or> str_includes lowerResponse kw_chuui
            \<or> str_includes lowerResponse kw_kiken then Keikoku
         else if str_includes lowerResponse kw_bunseki \<or> str_includes lowerResponse kw_deeta
            \<or> str_includes lowerResponse kw_toukei then Bunseki
         else if str_includes lowerResponse kw_question \<or> str_includes lowerResponse kw_kakunin
            \<or> str_includes lowerResponse kw_yoroshii then Kakunin
         else if str_includes lowerContext kw_question \<or> str_includes lowerContext kw_oshiete
            \<or> str_includes lowerContext kw_dou then Kaitou
         else Houkoku)"

subsection \<open>formatToPod021Style\<close>

text \<open>
  Each step of the source is a chain of \<open>replace\<close> calls with a global regular
  expression; a chain is a table of rules applied from first to last, each to the result of
  the one before.
\<close>

definition applyRules :: "(rx \<times> jsstr) list \<Rightarrow> jsstr \<Rightarrow> jsstr" where
  "applyRules rules s = foldl (\<lambda>acc (r, rep). replace_g r rep acc) s rules"

text \<open>Step 1: polite forms are removed or turned into the plain sentence end.\<close>

definition politeRules :: "(rx \<times> jsstr) list" where
  "politeRules =
     [(Seq (Str p_desu) (Opt (Str maru)), maru),
      (Seq (Str p_masu) (Opt (Str maru)), maru),
      (Seq (Str p_deshou) (Opt (Str maru)), maru),
      (Str p_datoomoimasu, r_tohandansuru),
      (Str p_kamoshiremasen, r_nokanouseigaaru),
      (Str p_otsukaresama, []),
      (Str p_arigatou, []),
      (Str p_sumimasen, []),
      (Str p_osoreiri, [])]"

text \<open>Step 2: emotion words.\<close>

definition emotionRules :: "(rx \<times> jsstr) list" where
  "emotionRules =
     [(Str p_ureshii, r_konomashiijoutai),
      (Str p_tanoshii, r_kouritsuteki),
      (Str p_kanashii, r_hikouritsutekijoutai),
      (Str p_odoroku, r_yokishinaijishou),
      (Str p_kandou, r_koukatekihannou)]"

text \<open>Step 3: the expressions of the persona.\<close>

definition podRules :: "(rx \<times> jsstr) list" where
  "podRules =
     [(Str p_watashiwa, r_toukiwa),
      (Str p_bokuwa, r_toukiwa),
      (Str p_anata, r_yuuzaa),
      (Str p_kimi, r_yuuzaa),
      (Str p_dekimashita, r_kanryou),
      (Str p_shimashita, r_jikkou),
      (Str p_mitsukemashita, r_kenshutsu),
      (Str p_shirabemashita, r_kaiseki)]"

text \<open>Step 4: the terminal mark is appended when the text does not end with it.\<close>

definition assertive :: "jsstr \<Rightarrow> jsstr" where
  "assertive formatted = (if \<not> endsWith formatted maru then formatted @ maru else formatted)"

text \<open>
  Step 5: runs of two or more terminal marks become one, runs of white space become one
  space, and the result is trimmed.
\<close>

definition simplify :: "jsstr \<Rightarrow> jsstr" where
  "simplify formatted =
     trim (replace_g (Plus Space) space
            (replace_g (Seq (Str maru) (Plus (Only 0x3002))) maru formatted))"

definition formatToPod021Style :: "jsstr \<Rightarrow> ResponseTypeEnum \<Rightarrow> jsstr" where
  "formatToPod021Style response rtype =
     (let formatted = response;
          formatted = applyRules politeRules formatted;
          formatted = applyRules emotionRules formatted;
          formatted = applyRules podRules formatted;
          formatted = assertive formatted;
          formatted = simplify formatted
      in formatted)"

subsection \<open>extractAdditionalInfo\<close>

text \<open>
  The three regular expressions of the source: a count (digits, then ken); a time (one or
  two digits, ji, one or two digits, fun; or one or two digits, a colon, two digits); a data
  volume (a number with an optional fraction and MB or GB, or digits and ko).
\<close>

definition rx_count :: rx where
  "rx_count = Seq (Plus Digit) (Str u_ken)"

definition rx_d12 :: rx where
  "rx_d12 = Seq (Cls Digit) (Opt (Cls Digit))"

definition rx_time :: rx where
  "rx_time =
     Alt (Seq rx_d12 (Seq (Str u_ji) (Seq rx_d12 (Str u_fun))))
         (Seq rx_d12 (Seq (Str u_colon) (Seq (Cls Digit) (Cls Digit))))"

definition rx_num :: rx where
  "rx_num = Seq (Plus Digit) (Seq (Opt (Str u_dot)) (Star Digit))"

definition rx_data :: rx where
  "rx_data =
     Alt (Seq rx_num (Str u_MB)) (Alt (Seq rx_num (Str u_GB)) (Seq (Plus Digit) (Str u_ko)))"

text \<open>
  \<open>countMatch[1]\<close>, the group \<open>(\d+)\<close> of the count expression, is the digits at the
  start of the matched text; the other two results use the whole matched text.
\<close>

definition extractAdditionalInfo :: "jsstr \<Rightarrow> ResponseTypeEnum \<Rightarrow> jsstr option" where
  "extractAdditionalInfo response rtype =
     (let countMatch = str_match rx_count response;
          timeMatch = str_match rx_time response;
          dataMatch = str_match rx_data response
      in if countMatch \<noteq> None \<and> (rtype = Shounin \<or> rtype = Houkoku)
         then Some (t_genzai @ takeWhile isDigit (the countMatch) @ t_ken_close)
         else if timeMatch \<noteq> None \<and> rtype = Ryoukai
         then Some (t_open @ the timeMatch @ t_nijikkou)
         else if dataMatch \<noteq> None \<and> rtype = Bunseki
         then Some (t_deetaryou @ the dataMatch @ t_close)
         else None)"

subsection \<open>generatePod021Response\<close>

text \<open>
  The type annotation of the argument is erased at run time: the function receives a
  string as the type.  The body has no check and no \<open>throw\<close>, so every path of the
  model returns a string.  An absent or empty \<open>additionalInfo\<close> adds nothing.
\<close>

datatype error = InvalidCategory

record formatted =
  type :: jsstr
  content :: jsstr
  additionalInfo :: "jsstr option"

definition taxonomy :: "jsstr list" where
  "taxonomy = map label ResponseType"

definition generatePod021Response :: "formatted \<Rightarrow> error + jsstr" where
  "generatePod021Response formatted =
     (let header = type formatted @ t_header_colon;
          additionalPart = (case additionalInfo formatted of
                              None \<Rightarrow> []
                            | Some a \<Rightarrow> if a = [] then [] else space @ a)
      in Inr (header @ content formatted @ additionalPart))"

subsection \<open>applyIntimacyPhase\<close>

text \<open>
  A JavaScript number is an IEEE-754 binary64 value; a finite one is modelled by the
  rational number it denotes.  The level is an optional argument with the default 0.
\<close>

type_synonym jsnum = rat

definition applyIntimacyPhase :: "jsstr \<Rightarrow> jsnum option \<Rightarrow> jsstr" where
  "applyIntimacyPhase response level =
     (let intimacyLevel = (case level of None \<Rightarrow> 0 | Some l \<Rightarrow> l)
      in if intimacyLevel < 3 then response
         else if str_includes response t_touki_shori then response @ t_shikashi
         else if str_includes response t_shinmitsudo \<or> str_includes response t_sesshoku
         then replaceFirst maru t_koui response
         else response)"

section \<open>JavaScript numbers\<close>

text \<open>
  Every arithmetic operation on numbers returns the exact result rounded to the nearest
  binary64 value, ties to the even significand, and a decimal literal denotes the binary64
  value nearest to it.  \<open>fl\<close> is that rounding for the normal range (53 significant
  bits; all numbers of the intimacy manager lie between 0 and 2 to the power 53, so neither
  overflow nor subnormal values occur): \<open>expo x\<close> is the binary exponent of a positive
  \<open>x\<close>, the largest \<open>e\<close> with \<open>2 powi e \<le> x\<close>.
\<close>

definition round_even :: "rat \<Rightarrow> int" where
  "round_even q =
     (let f = \<lfloor>q\<rfloor>; r = q - of_int f
      in if r < 1 / 2 then f else if 1 / 2 < r then f + 1 else if even f then f else f + 1)"

definition expo :: "rat \<Rightarrow> int" where
  "expo x =
     (let (p, q) = quotient_of x; d = bitlen p - bitlen q
      in if of_int q * 2 powi d \<le> (of_int p :: rat) then d else d - 1)"

definition fl :: "rat \<Rightarrow> jsnum" where
  "fl x =
     (if x = 0 then 0
      else let u = 2 powi (expo \<bar>x\<bar> - 52)
           in sgn x * of_int (round_even (\<bar>x\<bar> / u)) * u)"

text \<open>
  The remainder operator \<open>%\<close> for a divisor other than 0: the dividend minus the
  divisor times the quotient truncated towards zero; the result is exact.
\<close>

definition js_trunc :: "rat \<Rightarrow> int" where
  "js_trunc q = (if q < 0 then - \<lfloor>- q\<rfloor> else \<lfloor>q\<rfloor>)"

definition js_rem :: "jsnum \<Rightarrow> jsnum \<Rightarrow> jsnum" where
  "js_rem x y = x - y * of_int (js_trunc (x / y))"

section \<open>The intimacy manager\<close>

text \<open>
  The class \<open>IntimacyManager\<close> holds two numbers; its methods take the object and
  return the updated object.  The phase names are shoki (initial), kansatsu (observing),
  shinrai (trusting), shinmitsu (familiar) and kanjouhouga (emergent affect).
\<close>

definition ph_shoki :: jsstr where [lits]:
  "ph_shoki = [0x521D, 0x671F]"

definition ph_kansatsu :: jsstr where [lits]:
  "ph_kansatsu = [0x89B3, 0x5BDF]"

definition ph_shinrai :: jsstr where [lits]:
  "ph_shinrai = [0x4FE1, 0x983C]"

definition ph_shinmitsu :: jsstr where [lits]:
  "ph_shinmitsu = [0x89AA, 0x5BC6]"

definition ph_kanjouhouga :: jsstr where [lits]:
  "ph_kanjouhouga = [0x611F, 0x60C5, 0x840C, 0x82BD]"

record IntimacyManager =
  intimacyLevel :: jsnum
  interactionCount :: jsnum

definition new_IntimacyManager :: IntimacyManager where
  "new_IntimacyManager = \<lparr>intimacyLevel = 0, interactionCount = 0\<rparr>"

definition updateIntimacy :: "IntimacyManager \<Rightarrow> jsstr \<Rightarrow> jsstr \<Rightarrow> IntimacyManager" where
  "updateIntimacy this userMessage botResponse =
     (let this = this\<lparr>interactionCount := fl (interactionCount this + 1)\<rparr>;
          this = (if str_includes userMessage m_arigatou \<or> str_includes userMessage m_tasukaru
                  then this\<lparr>intimacyLevel := fl (intimacyLevel this + fl (1 / 10))\<rparr>
                  else this);
          this = (if str_includes userMessage m_poddo
                     \<and> (str_includes userMessage m_suki \<or> str_includes userMessage m_nade)
                  then this\<lparr>intimacyLevel := fl (intimacyLevel this + fl (3 / 10))\<rparr>
                  else this);
          this = (if js_rem (interactionCount this) 20 = 0
                  then this\<lparr>intimacyLevel := fl (intimacyLevel this + fl (1 / 20))\<rparr>
                  else this)
      in this\<lparr>intimacyLevel := min (intimacyLevel this) 5\<rparr>)"

definition getIntimacyLevel :: "IntimacyManager \<Rightarrow> jsnum" where
  "getIntimacyLevel this = intimacyLevel this"

definition isIntimatePhase :: "IntimacyManager \<Rightarrow> bool" where
  "isIntimatePhase this \<longleftrightarrow> 3 \<le> intimacyLevel this"

definition getPhase :: "IntimacyManager \<Rightarrow> jsstr" where
  "getPhase this =
     (if intimacyLevel this < 1 then ph_shoki
      else if intimacyLevel this < 2 then ph_kansatsu
      else if intimacyLevel this < 3 then ph_shinrai
      else if intimacyLevel this < 4 then ph_shinmitsu
      else ph_kanjouhouga)"

text \<open>A session: the updates of a list of turns, each a user message and a bot response.\<close>

fun session :: "IntimacyManager \<Rightarrow> (jsstr \<times> jsstr) list \<Rightarrow> IntimacyManager" where
  "session this [] = this"
| "session this ((userMessage, botResponse) # turns) =
     session (updateIntimacy this userMessage botResponse) turns"

text \<open>The phase ladder and the position of a phase name on it.\<close>

definition phaseLadder :: "jsstr list" where
  "phaseLadder = [ph_shoki, ph_kansatsu, ph_shinrai, ph_shinmitsu, ph_kanjouhouga]"

fun position :: "jsstr \<Rightarrow> jsstr list \<Rightarrow> nat" where
  "position p [] = 0"
| "position p (q # qs) = (if p = q then 0 else Suc (position p qs))"

definition phaseRank :: "jsstr \<Rightarrow> nat" where
  "phaseRank p = position p phaseLadder"

section \<open>Vocabulary of the properties\<close>

text \<open>
  What the properties of \<open>detectResponseType\<close> need of the runtime's
  \<open>toLowerCase\<close>: it keeps an occurrence of a keyword.  The keywords are Japanese text
  without case, which lowering leaves in place.  \<open>asciiLower\<close>, which lowers the ASCII
  capitals and nothing else, is one such function.
\<close>

definition keepsKeyword :: "(jsstr \<Rightarrow> jsstr) \<Rightarrow> jsstr \<Rightarrow> bool" where
  "keepsKeyword toLowerCase kw \<longleftrightarrow>
     (\<forall>t. str_includes t kw \<longrightarrow> str_includes (toLowerCase t) kw)"

definition asciiLower :: "jsstr \<Rightarrow> jsstr" where
  "asciiLower s = map (\<lambda>c. if 0x41 \<le> c \<and> c \<le> 0x5A then c + 0x20 else c) s"

text \<open>The keywords the rules look for in the text and in the context.\<close>

definition textKeywords :: "jsstr list" where
  "textKeywords =
     [kw_tsuika, kw_touroku, kw_settei, kw_wakari, kw_ryoukai, kw_jikkou,
      kw_osusume, kw_teian, kw_shitemite, kw_keikoku, kw_chuui, kw_kiken,
      kw_bunseki, kw_deeta, kw_toukei, kw_question, kw_kakunin, kw_yoroshii]"

definition contextKeywords :: "jsstr list" where
  "contextKeywords = [kw_question, kw_oshiete, kw_dou]"

text \<open>
  The text rules as an ordered table, each a list of keywords and the response type it
  answers, in the order of the source; \<open>firstMatch\<close> goes through a table from its
  first rule and answers with the first rule one of whose keywords occurs in the text.
\<close>

fun firstMatch :: "(jsstr list \<times> ResponseTypeEnum) list \<Rightarrow> jsstr \<Rightarrow> ResponseTypeEnum option" where
  "firstMatch [] s = None"
| "firstMatch ((kws, ty) # rules) s =
     (if list_ex (str_includes s) kws then Some ty else firstMatch rules s)"

definition textRules :: "(jsstr list \<times> ResponseTypeEnum) list" where
  "textRules =
     [([kw_tsuika, kw_touroku, kw_settei], Shounin),
      ([kw_wakari, kw_ryoukai, kw_jikkou], Ryoukai),
      ([kw_osusume, kw_teian, kw_shitemite], Teian),
      ([kw_keikoku, kw_chuui, kw_kiken], Keikoku),
      ([kw_bunseki, kw_deeta, kw_toukei], Bunseki),
      ([kw_question, kw_kakunin, kw_yoroshii], Kakunin)]"

text \<open>
  The patterns of steps 1 to 3 of \<open>formatToPod021Style\<close>, without the optional
  terminal mark of the first three.
\<close>

definition patterns :: "jsstr list" where
  "patterns =
     [p_desu, p_masu, p_deshou, p_datoomoimasu, p_kamoshiremasen, p_otsukaresama, p_arigatou,
      p_sumimasen, p_osoreiri, p_ureshii, p_tanoshii, p_kanashii, p_odoroku, p_kandou,
      p_watashiwa, p_bokuwa, p_anata, p_kimi, p_dekimashita, p_shimashita, p_mitsukemashita,
      p_shirabemashita]"

text \<open>
  The shape of a result of step 5: white space occurs only as single ASCII spaces
  (\<open>tidy\<close>); the text ends with the terminal mark, has no two terminal marks side by
  side and does not start with white space (\<open>normal\<close>).
\<close>

fun tidy :: "jsstr \<Rightarrow> bool" where
  "tidy [] = True"
| "tidy [x] = (isSpace x \<longrightarrow> x = 0x20)"
| "tidy (x # y # ys) = ((isSpace x \<longrightarrow> x = 0x20 \<and> \<not> isSpace y) \<and> tidy (y # ys))"

definition normal :: "jsstr \<Rightarrow> bool" where
  "normal s \<longleftrightarrow>
     s \<noteq> [] \<and> last s = 0x3002 \<and> \<not> str_includes s [0x3002, 0x3002] \<and> tidy s
     \<and> \<not> isSpace (hd s)"

text \<open>
  The two conditions of \<open>updateIntimacy\<close> on the user message, and the conditional
  addition that each of its three rules performs on the level.
\<close>

definition gratitude :: "jsstr \<Rightarrow> bool" where
  "gratitude userMessage \<longleftrightarrow>
     str_includes userMessage m_arigatou \<or> str_includes userMessage m_tasukaru"

definition affection :: "jsstr \<Rightarrow> bool" where
  "affection userMessage \<longleftrightarrow>
     str_includes userMessage m_poddo
     \<and> (str_includes userMessage m_suki \<or> str_includes userMessage m_nade)"

definition bump :: "bool \<Rightarrow> jsnum \<Rightarrow> jsnum \<Rightarrow> jsnum" where
  "bump applies c l = (if applies then fl (l + c) else l)"

section \<open>Example inputs\<close>

text \<open>A response that mentions sesshoku (contact), which the overlay extends.\<close>

definition ex_contact :: jsstr where
  "ex_contact = [0x63A5, 0x89E6, 0x3002]"

text \<open>An argument of the assembler whose type, the letter X, is not a response type.\<close>

definition ex_unknown_type :: formatted where
  "ex_unknown_type = \<lparr>type = [0x0058], content = [0x0061], additionalInfo = None\<rparr>"

text \<open>
  The request to add milk to the shopping list; a text with the letter A, tsuika (add) and
  kakunin (confirm); and a sentence about an enjoyable day, which has no keyword.
\<close>

definition ex_milk :: jsstr where
  "ex_milk = [0x8CB7, 0x3044, 0x7269, 0x30EA, 0x30B9, 0x30C8, 0x306B, 0x725B, 0x4E73, 0x3092,
              0x8FFD, 0x52A0, 0x3057, 0x3066]"

definition ex_add_confirm :: jsstr where
  "ex_add_confirm = [0x0041, 0x8FFD, 0x52A0, 0x3092, 0x78BA, 0x8A8D]"

text \<open>The same text without tsuika: the letter A and kakunin.\<close>

definition ex_confirm_only :: jsstr where
  "ex_confirm_only = [0x0041, 0x78BA, 0x8A8D]"

definition ex_day :: jsstr where
  "ex_day = [0x4ECA, 0x65E5, 0x306F, 0x697D, 0x3057, 0x3044, 0x4E00, 0x65E5, 0x3060, 0x3063,
             0x305F, 0x3002]"

text \<open>
  A text with a count of ten, followed by ASCII text, and the annotation expected for it.
\<close>

definition ex_count :: jsstr where
  "ex_count = [0x73FE, 0x5728, 0x0031, 0x0030, 0x4EF6, 0x0072, 0x0065, 0x0067, 0x0069, 0x0073,
               0x0074, 0x0065, 0x0072, 0x0065, 0x0064, 0x002E]"

definition ex_count_info :: jsstr where
  "ex_count_info = [0x3010, 0x73FE, 0x5728, 0x0031, 0x0030, 0x4EF6, 0x3011]"

text \<open>The text de, otsukaresama, su.\<close>

definition ex_bad :: jsstr where
  "ex_bad = [0x3067, 0x304A, 0x75B2, 0x308C, 0x69D8, 0x3059]"

text \<open>Twenty turns with the message arigatou and an empty response.\<close>

definition ex_thanks20 :: "(jsstr \<times> jsstr) list" where
  "ex_thanks20 = replicate 20 (m_arigatou, [])"

section \<open>The assembler, the overlay and the type argument of the transformer\<close>

text \<open>
  Claim C9.  The result of \<open>formatToPod021Style\<close> does not depend on the type argument:
  for every text and every two types the results are equal.
\<close>

theorem formatToPod021Style_ignores_type:
  "formatToPod021Style t c1 = formatToPod021Style t c2"
  by (simp add: formatToPod021Style_def)

text \<open>
  Claim C5.  Below the threshold 3 \<open>applyIntimacyPhase\<close> returns the response
  unchanged, whatever the response is.
\<close>

theorem applyIntimacyPhase_below_threshold:
  "l < 3 \<Longrightarrow> applyIntimacyPhase response (Some l) = response"
  by (simp add: applyIntimacyPhase_def)

text \<open>
  At level 2 the response about contact is returned as it is; at level 3 the same
  response is extended.
\<close>

theorem applyIntimacyPhase_below_threshold_witness:
  "(2 :: jsnum) < 3 \<and> applyIntimacyPhase ex_contact (Some 2) = ex_contact
     \<and> applyIntimacyPhase ex_contact (Some 3) \<noteq> ex_contact"
proof -
  have a: "(2 :: jsnum) < 3" by simp
  have b: "applyIntimacyPhase ex_contact (Some 3) \<noteq> ex_contact"
    by code_simp
  show ?thesis using a b applyIntimacyPhase_below_threshold [OF a, of ex_contact] by simp
qed

text \<open>
  Claim C2 says that \<open>generatePod021Response\<close> fails with \<open>InvalidCategory\<close> for a type
  outside the eight response types.  It does not: for the type X, which is not a response
  type, the result is not that error.
\<close>

theorem generatePod021Response_counterexample:
  "type ex_unknown_type \<notin> set taxonomy
     \<and> generatePod021Response ex_unknown_type \<noteq> Inl InvalidCategory"
  by (simp add: ex_unknown_type_def taxonomy_def ResponseType_def generatePod021Response_def)

text \<open>
  Claim C2, amended.  \<open>generatePod021Response\<close> checks nothing and never fails: for every
  type string, a response type or not, it returns the type, the full-width colon and the
  content, followed by a space and the additional information when that is present and not
  empty.
\<close>

theorem generatePod021Response_total:
  "generatePod021Response f =
     Inr (type f @ t_header_colon @ content f
            @ (case additionalInfo f of None \<Rightarrow> [] | Some a \<Rightarrow> if a = [] then [] else space @ a))"
  by (simp add: generatePod021Response_def)

section \<open>The classifier\<close>

lemma str_includes_iff: "str_includes s p \<longleftrightarrow> (\<exists>a b. s = a @ p @ b)"
proof (induction s)
  case Nil
  then show ?case by auto
next
  case (Cons x xs)
  show ?case
  proof
    assume "str_includes (x # xs) p"
    then consider "prefix p (x # xs)" | "str_includes xs p" by auto
    then show "\<exists>a b. x # xs = a @ p @ b"
    proof cases
      case 1
      then obtain b where "x # xs = p @ b" by (auto simp: prefix_def)
      then have "x # xs = [] @ p @ b" by simp
      then show ?thesis by blast
    next
      case 2
      with Cons.IH obtain a b where "xs = a @ p @ b" by blast
      then have "x # xs = (x # a) @ p @ b" by simp
      then show ?thesis by blast
    qed
  next
    assume "\<exists>a b. x # xs = a @ p @ b"
    then obtain a b where ab: "x # xs = a @ p @ b" by blast
    show "str_includes (x # xs) p"
    proof (cases a)
      case Nil
      with ab have "prefix p (x # xs)" by (simp add: prefix_def)
      then show ?thesis by simp
    next
      case (Cons y ys)
      with ab have "xs = ys @ p @ b" by simp
      with Cons.IH have "str_includes xs p" by blast
      then show ?thesis by simp
    qed
  qed
qed

lemma keepsKeyword_map:
  assumes "\<forall>c \<in> set kw. f c = c"
  shows "keepsKeyword (map f) kw"
  unfolding keepsKeyword_def
proof (intro allI impI)
  fix t assume "str_includes t kw"
  then obtain a b where "t = a @ kw @ b" by (auto simp: str_includes_iff)
  moreover have "map f kw = kw" using assms by (simp add: map_idI)
  ultimately have "map f t = map f a @ kw @ map f b" by simp
  then show "str_includes (map f t) kw" unfolding str_includes_iff by blast
qed

lemma asciiLower_keeps:
  "\<forall>c \<in> set kw. \<not> (0x41 \<le> c \<and> c \<le> 0x5A) \<Longrightarrow> keepsKeyword asciiLower kw"
proof -
  assume a: "\<forall>c \<in> set kw. \<not> (0x41 \<le> c \<and> c \<le> 0x5A)"
  have "asciiLower = map (\<lambda>c. if 0x41 \<le> c \<and> c \<le> 0x5A then c + 0x20 else c)"
    by (rule ext) (simp add: asciiLower_def)
  moreover have "keepsKeyword (map (\<lambda>c. if 0x41 \<le> c \<and> c \<le> 0x5A then c + 0x20 else c)) kw"
    by (rule keepsKeyword_map) (use a in auto)
  ultimately show ?thesis by simp
qed

lemma detectResponseType_first_rule:
  assumes "str_includes (lc text) kw_tsuika \<or> str_includes (lc text) kw_touroku
             \<or> str_includes (lc text) kw_settei"
  shows "detectResponseType lc text ctx = Shounin"
  using assms by (simp add: detectResponseType_def Let_def)

lemma detectResponseType_chain:
  "detectResponseType lc text ctx =
     (case firstMatch textRules (lc text) of
        Some ty \<Rightarrow> ty
      | None \<Rightarrow>
          if list_ex (str_includes (case ctx of None \<Rightarrow> [] | Some c \<Rightarrow> lc c)) contextKeywords
          then Kaitou else Houkoku)"
  by (cases ctx) (simp_all add: detectResponseType_def Let_def textRules_def contextKeywords_def)

lemma firstMatch_split:
  assumes "list_all (\<lambda>(k, t). \<not> list_ex (str_includes s) k) pre"
    and "list_ex (str_includes s) kws"
  shows "firstMatch (pre @ (kws, ty) # post) s = Some ty"
  using assms by (induction pre) auto

text \<open>
  Claim C6.  The rules are tried in a fixed order and the first match wins.
  \<open>detectResponseType\<close> answers as \<open>firstMatch\<close> does on the ordered table of the
  text rules, applied to the lowered text, and falls back to the context rule and then to
  houkoku when no text rule matches.  Hence, wherever the table is split at a rule, if no
  rule before it matches the lowered text and the rule matches, the answer is the type of
  that rule; the rule of kakunin (the full-width question mark, kakunin, yoroshii) is the
  sixth, the rule of shounin (tsuika, touroku, settei) the first.  A text that holds a
  keyword of the first rule and a keyword of the confirmation rule is classified as
  shounin, and so is the request to add milk to the shopping list.  \<open>toLowerCase\<close> is
  any function that keeps the three keywords of the first rule.
\<close>

theorem detectResponseType_first_match_wins:
  assumes "keepsKeyword lc kw_tsuika" "keepsKeyword lc kw_touroku" "keepsKeyword lc kw_settei"
  shows "detectResponseType lc response ctx =
           (case firstMatch textRules (lc response) of
              Some ty \<Rightarrow> ty
            | None \<Rightarrow>
                if list_ex (str_includes (case ctx of None \<Rightarrow> [] | Some c \<Rightarrow> lc c))
                     contextKeywords
                then Kaitou else Houkoku)
         \<and> (textRules = pre @ (kws, ty) # post
              \<and> list_all (\<lambda>(k, t). \<not> list_ex (str_includes (lc response)) k) pre
              \<and> list_ex (str_includes (lc response)) kws
            \<longrightarrow> detectResponseType lc response ctx = ty)
         \<and> ((str_includes response kw_tsuika \<or> str_includes response kw_touroku
               \<or> str_includes response kw_settei)
              \<and> (str_includes response kw_question \<or> str_includes response kw_kakunin
               \<or> str_includes response kw_yoroshii)
            \<longrightarrow> detectResponseType lc response ctx = Shounin)
         \<and> detectResponseType lc ex_milk ctx = Shounin"
proof (intro conjI impI)
  show "detectResponseType lc response ctx =
           (case firstMatch textRules (lc response) of
              Some ty \<Rightarrow> ty
            | None \<Rightarrow>
                if list_ex (str_includes (case ctx of None \<Rightarrow> [] | Some c \<Rightarrow> lc c))
                     contextKeywords
                then Kaitou else Houkoku)"
    by (rule detectResponseType_chain)
next
  assume a: "textRules = pre @ (kws, ty) # post
      \<and> list_all (\<lambda>(k, t). \<not> list_ex (str_includes (lc response)) k) pre
      \<and> list_ex (str_includes (lc response)) kws"
  then have "firstMatch (pre @ (kws, ty) # post) (lc response) = Some ty"
    by (intro firstMatch_split) simp_all
  with a have "firstMatch textRules (lc response) = Some ty" by simp
  then show "detectResponseType lc response ctx = ty" by (simp add: detectResponseType_chain)
next
  have first: "detectResponseType lc t ctx = Shounin"
    if "str_includes t kw_tsuika \<or> str_includes t kw_touroku \<or> str_includes t kw_settei" for t
  proof -
    from that assms have "str_includes (lc t) kw_tsuika \<or> str_includes (lc t) kw_touroku
             \<or> str_includes (lc t) kw_settei"
      unfolding keepsKeyword_def by blast
    then show ?thesis by (rule detectResponseType_first_rule)
  qed
  {
    assume "(str_includes response kw_tsuika \<or> str_includes response kw_touroku
               \<or> str_includes response kw_settei)
              \<and> (str_includes response kw_question \<or> str_includes response kw_kakunin
               \<or> str_includes response kw_yoroshii)"
    then show "detectResponseType lc response ctx = Shounin" using first by blast
  }
  have "str_includes ex_milk kw_tsuika" by code_simp
  then show "detectResponseType lc ex_milk ctx = Shounin" using first by blast
qed

text \<open>
  With \<open>asciiLower\<close>: the text that holds tsuika and kakunin is shounin, while the same
  text without tsuika is kakunin, by the sixth rule after the five before it have failed.
\<close>

theorem detectResponseType_first_match_wins_witness:
  "str_includes ex_add_confirm kw_tsuika \<and> str_includes ex_add_confirm kw_kakunin
   \<and> detectResponseType asciiLower ex_add_confirm None = Shounin
   \<and> str_includes ex_confirm_only kw_kakunin
   \<and> detectResponseType asciiLower ex_confirm_only None = Kakunin
   \<and> detectResponseType asciiLower ex_milk None = Shounin"
proof -
  have k: "keepsKeyword asciiLower kw_tsuika" "keepsKeyword asciiLower kw_touroku"
    "keepsKeyword asciiLower kw_settei"
    by (rule asciiLower_keeps, simp add: lits)+
  have a: "str_includes ex_add_confirm kw_tsuika" by code_simp
  have b: "str_includes ex_add_confirm kw_kakunin" by code_simp
  have c: "str_includes ex_confirm_only kw_kakunin" by code_simp
  have s: "textRules = take 5 textRules @ ([kw_question, kw_kakunin, kw_yoroshii], Kakunin) # []"
    by (simp add: textRules_def)
  have n: "list_all (\<lambda>(k, t). \<not> list_ex (str_includes (asciiLower ex_confirm_only)) k)
             (take 5 textRules)"
    by code_simp
  have m: "list_ex (str_includes (asciiLower ex_confirm_only))
             [kw_question, kw_kakunin, kw_yoroshii]"
    by code_simp
  have 1: "detectResponseType asciiLower ex_add_confirm None = Shounin"
    using a b
      detectResponseType_first_match_wins [OF k, where response = ex_add_confirm and ctx = None,
        THEN conjunct2, THEN conjunct2, THEN conjunct1]
    by blast
  have 2: "detectResponseType asciiLower ex_confirm_only None = Kakunin"
    using s n m
      detectResponseType_first_match_wins [OF k, where response = ex_confirm_only and ctx = None
        and pre = "take 5 textRules" and kws = "[kw_question, kw_kakunin, kw_yoroshii]"
        and ty = Kakunin and post = "[]", THEN conjunct2, THEN conjunct1]
    by blast
  have 3: "detectResponseType asciiLower ex_milk None = Shounin"
    by (rule detectResponseType_first_match_wins [OF k, where ctx = None,
        THEN conjunct2, THEN conjunct2, THEN conjunct2])
  show ?thesis using a b c 1 2 3 by (intro conjI)
qed

text \<open>
  Claim C8.  \<open>detectResponseType\<close> is a total function into the eight response types,
  for every text, every context, present or absent, and every \<open>toLowerCase\<close>; no path of
  it throws.  When no keyword of the text rules occurs in the lowered text and no keyword of
  the context rule occurs in the lowered context, the result is houkoku, the default; with
  an absent context the condition on the text alone suffices.
\<close>

theorem detectResponseType_total_default:
  "detectResponseType lc text ctx \<in> set ResponseType
   \<and> ((\<forall>kw \<in> set textKeywords. \<not> str_includes (lc text) kw)
        \<and> (\<forall>kw \<in> set contextKeywords.
              \<not> str_includes (case ctx of None \<Rightarrow> [] | Some c \<Rightarrow> lc c) kw)
      \<longrightarrow> detectResponseType lc text ctx = Houkoku)
   \<and> ((\<forall>kw \<in> set textKeywords. \<not> str_includes (lc text) kw)
      \<longrightarrow> detectResponseType lc text None = Houkoku)"
proof (intro conjI impI)
  show "detectResponseType lc text ctx \<in> set ResponseType"
    by (cases "detectResponseType lc text ctx") (simp_all add: ResponseType_def)
next
  assume "(\<forall>kw \<in> set textKeywords. \<not> str_includes (lc text) kw)
        \<and> (\<forall>kw \<in> set contextKeywords.
              \<not> str_includes (case ctx of None \<Rightarrow> [] | Some c \<Rightarrow> lc c) kw)"
  then show "detectResponseType lc text ctx = Houkoku"
    by (cases ctx) (simp_all add: detectResponseType_def Let_def textKeywords_def contextKeywords_def)
next
  assume "\<forall>kw \<in> set textKeywords. \<not> str_includes (lc text) kw"
  then show "detectResponseType lc text None = Houkoku"
    by (simp add: detectResponseType_def Let_def textKeywords_def lits)
qed

text \<open>
  At the sentence about the day, with the milk request as context and without context, and
  at the empty text.
\<close>

theorem detectResponseType_total_default_witness:
  "list_all (\<lambda>kw. \<not> str_includes (asciiLower ex_day) kw) textKeywords
   \<and> list_all (\<lambda>kw. \<not> str_includes (asciiLower ex_milk) kw) contextKeywords
   \<and> detectResponseType asciiLower ex_day (Some ex_milk) = Houkoku
   \<and> detectResponseType asciiLower ex_day None = Houkoku
   \<and> detectResponseType asciiLower [] None = Houkoku"
proof -
  have a: "list_all (\<lambda>kw. \<not> str_includes (asciiLower ex_day) kw) textKeywords" by code_simp
  have b: "list_all (\<lambda>kw. \<not> str_includes (asciiLower ex_milk) kw) contextKeywords"
    by code_simp
  have c: "list_all (\<lambda>kw. \<not> str_includes (asciiLower []) kw) textKeywords" by code_simp
  show ?thesis
    using a b c detectResponseType_total_default [of asciiLower ex_day "Some ex_milk"]
      detectResponseType_total_default [of asciiLower "[]" None]
    by (simp add: list_all_iff)
qed

section \<open>The extractor\<close>

text \<open>
  Claim C7.  For the text with the count of ten and the type shounin the result is the
  bracketed count annotation.  For every text the result is undefined when the type is none
  of shounin, houkoku, ryoukai and bunseki, and when the regular expression of the class of
  the type (the count for shounin and houkoku, the time for ryoukai, the data volume for
  bunseki) matches nowhere in the text.
\<close>

theorem extractAdditionalInfo_gated:
  "extractAdditionalInfo ex_count Shounin = Some ex_count_info
   \<and> (rtype \<noteq> Shounin \<and> rtype \<noteq> Houkoku \<and> rtype \<noteq> Ryoukai \<and> rtype \<noteq> Bunseki
        \<longrightarrow> extractAdditionalInfo text rtype = None)
   \<and> ((rtype = Shounin \<or> rtype = Houkoku) \<and> str_match rx_count text = None
        \<longrightarrow> extractAdditionalInfo text rtype = None)
   \<and> (rtype = Ryoukai \<and> str_match rx_time text = None
        \<longrightarrow> extractAdditionalInfo text rtype = None)
   \<and> (rtype = Bunseki \<and> str_match rx_data text = None
        \<longrightarrow> extractAdditionalInfo text rtype = None)"
proof (intro conjI impI)
  show "extractAdditionalInfo ex_count Shounin = Some ex_count_info"
    by code_simp
qed (auto simp: extractAdditionalInfo_def Let_def)

text \<open>
  At the type teian; at shounin with a text without a count; at ryoukai with a text without
  a time; at bunseki with a text without a data volume.
\<close>

theorem extractAdditionalInfo_gated_witness:
  "extractAdditionalInfo ex_count Teian = None
   \<and> str_match rx_count ex_milk = None \<and> extractAdditionalInfo ex_milk Shounin = None
   \<and> str_match rx_time ex_count = None \<and> extractAdditionalInfo ex_count Ryoukai = None
   \<and> str_match rx_data ex_count = None \<and> extractAdditionalInfo ex_count Bunseki = None"
proof -
  have a: "str_match rx_count ex_milk = None" by code_simp
  have b: "str_match rx_time ex_count = None" by code_simp
  have c: "str_match rx_data ex_count = None" by code_simp
  show ?thesis
    using a b c extractAdditionalInfo_gated [of Teian ex_count]
      extractAdditionalInfo_gated [of Shounin ex_milk]
      extractAdditionalInfo_gated [of Ryoukai ex_count]
      extractAdditionalInfo_gated [of Bunseki ex_count]
    by simp
qed

section \<open>The transformer\<close>

subsection \<open>Matches of the two expressions of step 5\<close>

lemma replace_g_Plus_Nil: "replace_g (Plus c) rep [] = []"
  by (simp add: replace_g.simps matchAt_def)

lemma rev_upt_Suc0: "rev [Suc 0 ..< Suc n] = (if n = 0 then [] else n # rev [Suc 0 ..< n])"
  by (cases n) simp_all

lemma length_minus_drop_takeWhile:
  "Suc (length xs) - length (drop (length (takeWhile P xs)) xs) = Suc (length (takeWhile P xs))"
  using length_takeWhile_le [of P xs] by simp

lemma matchAt_Plus:
  "matchAt (Plus c) s =
     (case s of [] \<Rightarrow> None
      | x # xs \<Rightarrow> if inCls c x then Some (Suc (length (takeWhile (inCls c) xs))) else None)"
proof (cases s)
  case Nil
  then show ?thesis by (simp add: matchAt_def)
next
  case (Cons x xs)
  show ?thesis
  proof (cases "inCls c x")
    case True
    then have "rxm (Plus c) (x # xs) =
        drop (length (takeWhile (inCls c) xs)) xs
          # map (\<lambda>k. drop k (x # xs)) (rev [Suc 0 ..< Suc (length (takeWhile (inCls c) xs))])"
      by (simp add: rev_upt_Suc0 del: upt_Suc)
    then have "matchAt (Plus c) (x # xs) =
        Some (Suc (length xs) - length (drop (length (takeWhile (inCls c) xs)) xs))"
      by (simp add: matchAt_def del: rxm.simps upt_Suc)
    also have "Suc (length xs) - length (drop (length (takeWhile (inCls c) xs)) xs) =
        Suc (length (takeWhile (inCls c) xs))"
      by (rule length_minus_drop_takeWhile)
    finally show ?thesis using Cons True by simp
  next
    case False
    then show ?thesis using Cons by (simp add: matchAt_def)
  qed
qed

lemma drop_takeWhile_length: "drop (length (takeWhile P xs)) xs = dropWhile P xs"
  by (induction xs) simp_all


lemma replace_g_Plus_Cons:
  "replace_g (Plus c) rep (x # xs) =
     (if inCls c x then rep @ replace_g (Plus c) rep (dropWhile (inCls c) xs)
      else x # replace_g (Plus c) rep xs)"
  by (simp add: replace_g.simps matchAt_Plus drop_takeWhile_length)

lemma rxm_Seq_Str1:
  "rxm (Seq (Str [d]) r) s = (case s of [] \<Rightarrow> [] | x # xs \<Rightarrow> if x = d then rxm r xs else [])"
  by (cases s) simp_all

lemma matchAt_dots:
  "matchAt (Seq (Str [d]) (Plus (Only d))) s =
     (case s of [] \<Rightarrow> None
      | x # xs \<Rightarrow> if x = d then map_option Suc (matchAt (Plus (Only d)) xs) else None)"
proof (cases s)
  case Nil
  then show ?thesis by (simp add: matchAt_def)
next
  case (Cons x xs)
  show ?thesis
  proof (cases "x = d")
    case True
    have le: "length t \<le> length xs" if "t \<in> set (rxm (Plus (Only d)) xs)" for t
      using that by auto
    show ?thesis
    proof (cases "rxm (Plus (Only d)) xs")
      case Nil
      then show ?thesis using Cons True
        by (simp add: matchAt_def rxm_Seq_Str1 del: rxm.simps(6))
    next
      case (Cons t ts)
      then have "length t \<le> length xs" using le by simp
      then show ?thesis using Cons \<open>s = x # xs\<close> True
        by (simp add: matchAt_def rxm_Seq_Str1 Suc_diff_le del: rxm.simps(6))
    qed
  next
    case False
    then show ?thesis using Cons by (simp add: matchAt_def)
  qed
qed

lemma replace_g_dots_Nil: "replace_g (Seq (Str [d]) (Plus (Only d))) rep [] = []"
  by (simp add: replace_g.simps matchAt_dots)

lemma replace_g_dots_Cons:
  "replace_g (Seq (Str [d]) (Plus (Only d))) rep (x # xs) =
     (if x = d \<and> xs \<noteq> [] \<and> hd xs = d
      then rep @ replace_g (Seq (Str [d]) (Plus (Only d))) rep (dropWhile (\<lambda>c. c = d) xs)
      else x # replace_g (Seq (Str [d]) (Plus (Only d))) rep xs)"
proof -
  have eq: "inCls (Only d) = (\<lambda>c. c = d)" by (rule ext) simp
  show ?thesis
    by (cases xs) (simp_all add: replace_g.simps matchAt_dots matchAt_Plus drop_takeWhile_length eq)
qed


lemma dots_match:
  "xs \<noteq> [] \<Longrightarrow> hd xs = d \<Longrightarrow>
   replace_g (Seq (Str [d]) (Plus (Only d))) rep (d # xs) =
     rep @ replace_g (Seq (Str [d]) (Plus (Only d))) rep (dropWhile (\<lambda>c. c = d) xs)"
  by (simp add: replace_g_dots_Cons)

lemma dots_skip:
  "\<not> (x = d \<and> xs \<noteq> [] \<and> hd xs = d) \<Longrightarrow>
   replace_g (Seq (Str [d]) (Plus (Only d))) rep (x # xs) =
     x # replace_g (Seq (Str [d]) (Plus (Only d))) rep xs"
  by (auto simp add: replace_g_dots_Cons)

lemma str_includes_pair:
  "str_includes (x # xs) [d, d] \<longleftrightarrow> (x = d \<and> xs \<noteq> [] \<and> hd xs = d) \<or> str_includes xs [d, d]"
  by (cases xs) auto

lemma str_includes_pair_Nil: "\<not> str_includes [] [d, d]"
  by simp

lemma str_includes_dropWhile:
  "\<not> str_includes s p \<Longrightarrow> \<not> str_includes (dropWhile P s) p"
  by (induction s) (auto split: if_splits)

lemma length_dropWhile_less: "length (dropWhile P xs) < Suc (length xs)"
  by (simp add: length_dropWhile_le less_Suc_eq_le)

subsection \<open>Runs of the terminal mark\<close>

lemma dots_empty_iff: "replace_g (Seq (Str [d]) (Plus (Only d))) [d] s = [] \<longleftrightarrow> s = []"
  by (cases s) (simp_all add: replace_g_dots_Nil replace_g_dots_Cons)

lemma dots_hd: "s \<noteq> [] \<Longrightarrow> hd (replace_g (Seq (Str [d]) (Plus (Only d))) [d] s) = hd s"
  by (cases s) (simp_all add: replace_g_dots_Cons)

lemma dots_last:
  "s \<noteq> [] \<Longrightarrow> last (replace_g (Seq (Str [d]) (Plus (Only d))) [d] s) = last s"
proof (induction s rule: length_induct)
  case (1 s)
  then obtain x xs where s: "s = x # xs" by (cases s) auto
  let ?R = "replace_g (Seq (Str [d]) (Plus (Only d))) [d]"
  show ?case
  proof (cases "x = d \<and> xs \<noteq> [] \<and> hd xs = d")
    case True
    let ?t = "dropWhile (\<lambda>c. c = d) xs"
    have R: "?R s = d # ?R ?t" using s True by (simp add: dots_match)
    show ?thesis
    proof (cases "?t = []")
      case True
      then have "\<forall>c \<in> set xs. c = d" by simp
      then have "last (x # xs) = d" using \<open>x = d \<and> xs \<noteq> [] \<and> hd xs = d\<close> by simp
      then show ?thesis using R True s by (simp add: replace_g_dots_Nil)
    next
      case False
      have "length ?t < length s" using s by (simp add: length_dropWhile_less)
      with 1 False have "last (?R ?t) = last ?t" by blast
      moreover have "last ?t = last xs"
        using False by (metis last_appendR takeWhile_dropWhile_id)
      moreover have "xs \<noteq> []" using True by simp
      ultimately show ?thesis using R s False by (auto simp add: dots_empty_iff)
    qed
  next
    case False
    then have R: "?R s = x # ?R xs" using s by (simp add: dots_skip)
    show ?thesis
    proof (cases "xs = []")
      case True
      then show ?thesis using R s by (simp add: replace_g_dots_Nil)
    next
      case False
      with 1 s have "last (?R xs) = last xs" by simp
      then show ?thesis using R s False by (simp add: dots_empty_iff)
    qed
  qed
qed

lemma dots_no_pair: "\<not> str_includes (replace_g (Seq (Str [d]) (Plus (Only d))) [d] s) [d, d]"
proof (induction s rule: length_induct)
  case (1 s)
  let ?R = "replace_g (Seq (Str [d]) (Plus (Only d))) [d]"
  show ?case
  proof (cases s)
    case Nil
    then show ?thesis by (simp add: replace_g_dots_Nil)
  next
    case (Cons x xs)
    show ?thesis
    proof (cases "x = d \<and> xs \<noteq> [] \<and> hd xs = d")
      case True
      let ?t = "dropWhile (\<lambda>c. c = d) xs"
      have R: "?R s = d # ?R ?t" using Cons True by (simp add: dots_match)
      have "length ?t < length s" using Cons by (simp add: length_dropWhile_less)
      with 1 have ih: "\<not> str_includes (?R ?t) [d, d]" by blast
      have "?t \<noteq> [] \<Longrightarrow> hd ?t \<noteq> d" by (metis (mono_tags, lifting) hd_dropWhile)
      then have "?R ?t \<noteq> [] \<Longrightarrow> hd (?R ?t) \<noteq> d"
        by (simp add: dots_empty_iff dots_hd)
      with ih show ?thesis unfolding R str_includes_pair by blast
    next
      case False
      then have R: "?R s = x # ?R xs" using Cons by (simp add: dots_skip)
      from 1 Cons have ih: "\<not> str_includes (?R xs) [d, d]" by simp
      have "\<not> (x = d \<and> ?R xs \<noteq> [] \<and> hd (?R xs) = d)"
        using False by (auto simp: dots_empty_iff dots_hd)
      with ih show ?thesis unfolding R str_includes_pair by blast
    qed
  qed
qed

lemma dots_id:
  "\<not> str_includes s [d, d] \<Longrightarrow> replace_g (Seq (Str [d]) (Plus (Only d))) [d] s = s"
proof (induction s)
  case Nil
  then show ?case by (simp add: replace_g_dots_Nil)
next
  case (Cons x xs)
  then have "\<not> (x = d \<and> xs \<noteq> [] \<and> hd xs = d)" and "\<not> str_includes xs [d, d]"
    unfolding str_includes_pair by blast+
  with Cons.IH show ?case by (simp add: dots_skip)
qed


subsection \<open>Runs of white space\<close>

lemma spaces_match:
  "isSpace x \<Longrightarrow>
   replace_g (Plus Space) rep (x # xs) = rep @ replace_g (Plus Space) rep (dropWhile isSpace xs)"
proof -
  have eq: "inCls Space = isSpace" by (rule ext) simp
  show "isSpace x \<Longrightarrow> ?thesis" by (simp add: replace_g_Plus_Cons eq)
qed

lemma spaces_skip:
  "\<not> isSpace x \<Longrightarrow> replace_g (Plus Space) rep (x # xs) = x # replace_g (Plus Space) rep xs"
  by (simp add: replace_g_Plus_Cons)

lemma isSpace_0x20: "isSpace 0x20"
  by (simp add: isSpace_def)

lemma not_isSpace_maru: "\<not> isSpace 0x3002"
  by (simp add: isSpace_def)

lemma spaces_empty_iff: "replace_g (Plus Space) [0x20] s = [] \<longleftrightarrow> s = []"
  by (cases s; cases "isSpace (hd s)") (simp_all add: replace_g_Plus_Nil spaces_match spaces_skip)

lemma spaces_hd:
  "s \<noteq> [] \<Longrightarrow>
   hd (replace_g (Plus Space) [0x20] s) = (if isSpace (hd s) then 0x20 else hd s)"
  by (cases s) (simp_all add: spaces_match spaces_skip)

lemma spaces_hd_nonspace:
  "s \<noteq> [] \<Longrightarrow> \<not> isSpace (hd s) \<Longrightarrow> hd (replace_g (Plus Space) [0x20] s) = hd s"
  by (cases s) (simp_all add: spaces_skip)

lemma dropWhile_last:
  "dropWhile P xs \<noteq> [] \<Longrightarrow> last (dropWhile P xs) = last xs"
  by (metis last_appendR takeWhile_dropWhile_id)

lemma dropWhile_nonempty_last: "xs \<noteq> [] \<Longrightarrow> \<not> P (last xs) \<Longrightarrow> dropWhile P xs \<noteq> []"
  using last_in_set [of xs] by (auto simp: dropWhile_eq_Nil_conv)

lemma spaces_last:
  "s \<noteq> [] \<Longrightarrow> \<not> isSpace (last s) \<Longrightarrow> last (replace_g (Plus Space) [0x20] s) = last s"
proof (induction s rule: length_induct)
  case (1 s)
  then obtain x xs where s: "s = x # xs" by (cases s) auto
  let ?W = "replace_g (Plus Space) [0x20]"
  show ?case
  proof (cases "isSpace x")
    case True
    let ?t = "dropWhile isSpace xs"
    have W: "?W s = 0x20 # ?W ?t" using s True by (simp add: spaces_match)
    have xs: "xs \<noteq> []" using 1(3) s True by auto
    then have lx: "last xs = last s" using s by simp
    have "\<not> isSpace (last xs)" using lx 1(3) by simp
    with xs have t: "?t \<noteq> []" by (rule dropWhile_nonempty_last)
    then have "last ?t = last xs" by (rule dropWhile_last)
    with lx have lt: "last ?t = last s" by simp
    have "length ?t < length s" using s by (simp add: length_dropWhile_less)
    moreover have "\<not> isSpace (last ?t)" using lt 1(3) by simp
    ultimately have "last (?W ?t) = last ?t" using 1(1) t by blast
    moreover have "?W ?t \<noteq> []" using t by (simp only: spaces_empty_iff not_False_eq_True)
    ultimately show ?thesis using W lt by simp
  next
    case False
    then have W: "?W s = x # ?W xs" using s by (simp add: spaces_skip)
    show ?thesis
    proof (cases "xs = []")
      case True
      then show ?thesis using W s by (simp add: replace_g_Plus_Nil)
    next
      case False
      with 1 s have "last (?W xs) = last xs" by simp
      then show ?thesis using W s False by (simp add: spaces_empty_iff)
    qed
  qed
qed

lemma spaces_no_pair:
  assumes d: "\<not> isSpace d"
  shows "\<not> str_includes s [d, d] \<Longrightarrow> \<not> str_includes (replace_g (Plus Space) [0x20] s) [d, d]"
proof (induction s rule: length_induct)
  case (1 s)
  let ?W = "replace_g (Plus Space) [0x20]"
  have d20: "d \<noteq> 0x20" using d isSpace_0x20 by auto
  show ?case
  proof (cases s)
    case Nil
    then show ?thesis by (simp add: replace_g_Plus_Nil)
  next
    case (Cons x xs)
    show ?thesis
    proof (cases "isSpace x")
      case True
      let ?t = "dropWhile isSpace xs"
      have W: "?W s = 0x20 # ?W ?t" using Cons True by (simp add: spaces_match)
      from 1(2) Cons have "\<not> str_includes (x # xs) [d, d]" by simp
      then have "\<not> str_includes xs [d, d]" unfolding str_includes_pair by blast
      then have "\<not> str_includes ?t [d, d]" by (rule str_includes_dropWhile)
      moreover have "length ?t < length s" using Cons by (simp add: length_dropWhile_less)
      ultimately have "\<not> str_includes (?W ?t) [d, d]" using 1(1) by blast
      then show ?thesis unfolding W str_includes_pair using d20 by auto
    next
      case False
      then have W: "?W s = x # ?W xs" using Cons by (simp add: spaces_skip)
      from 1(2) Cons have "\<not> str_includes (x # xs) [d, d]" by simp
      then have nx: "\<not> (x = d \<and> xs \<noteq> [] \<and> hd xs = d)" and nxs: "\<not> str_includes xs [d, d]"
        unfolding str_includes_pair by blast+
      from 1(1) Cons nxs have ih: "\<not> str_includes (?W xs) [d, d]" by simp
      have "\<not> (x = d \<and> ?W xs \<noteq> [] \<and> hd (?W xs) = d)"
        using nx d20 by (auto simp: spaces_empty_iff spaces_hd split: if_splits)
      with ih show ?thesis unfolding W str_includes_pair by blast
    qed
  qed
qed

lemma hd_dropWhile_not: "dropWhile P xs \<noteq> [] \<Longrightarrow> \<not> P (hd (dropWhile P xs))"
  by (rule hd_dropWhile)

lemma tidy_Cons:
  "tidy (x # xs) \<longleftrightarrow> (isSpace x \<longrightarrow> x = 0x20 \<and> (xs = [] \<or> \<not> isSpace (hd xs))) \<and> tidy xs"
  by (cases xs) auto

lemma spaces_tidy: "tidy (replace_g (Plus Space) [0x20] s)"
proof (induction s rule: length_induct)
  case (1 s)
  let ?W = "replace_g (Plus Space) [0x20]"
  show ?case
  proof (cases s)
    case Nil
    then show ?thesis by (simp add: replace_g_Plus_Nil)
  next
    case (Cons x xs)
    show ?thesis
    proof (cases "isSpace x")
      case True
      let ?t = "dropWhile isSpace xs"
      have W: "?W s = 0x20 # ?W ?t" using Cons True by (simp add: spaces_match)
      have "length ?t < length s" using Cons by (simp add: length_dropWhile_less)
      with 1 have ih: "tidy (?W ?t)" by blast
      have "?W ?t = [] \<or> \<not> isSpace (hd (?W ?t))"
      proof (cases "?t = []")
        case True
        then have "?W ?t = ?W []" by (rule arg_cong)
        then have "?W ?t = []" by (simp only: replace_g_Plus_Nil)
        then show ?thesis by (rule disjI1)
      next
        case False
        then have "\<not> isSpace (hd ?t)" by (rule hd_dropWhile)
        with False have "hd (?W ?t) = hd ?t" by (rule spaces_hd_nonspace)
        with \<open>\<not> isSpace (hd ?t)\<close> show ?thesis by simp
      qed
      with ih show ?thesis unfolding W tidy_Cons by simp
    next
      case False
      then have W: "?W s = x # ?W xs" using Cons by (simp add: spaces_skip)
      from 1 Cons have "tidy (?W xs)" by simp
      with False show ?thesis unfolding W tidy_Cons by simp
    qed
  qed
qed

lemma tidy_spaces_id: "tidy s \<Longrightarrow> replace_g (Plus Space) [0x20] s = s"
proof (induction s)
  case Nil
  then show ?case by (simp add: replace_g_Plus_Nil)
next
  case (Cons x xs)
  then have t: "tidy xs" and ih: "replace_g (Plus Space) [0x20] xs = xs"
    unfolding tidy_Cons by simp_all
  show ?case
  proof (cases "isSpace x")
    case True
    with Cons.prems have x: "x = 0x20" and nx: "xs = [] \<or> \<not> isSpace (hd xs)"
      unfolding tidy_Cons by simp_all
    from nx have "dropWhile isSpace xs = xs" by (cases xs) auto
    then show ?thesis using True x ih by (simp add: spaces_match)
  next
    case False
    then show ?thesis using ih by (simp add: spaces_skip)
  qed
qed

lemma tidy_dropWhile: "tidy s \<Longrightarrow> tidy (dropWhile P s)"
  by (induction s) (auto simp: tidy_Cons)

subsection \<open>Trimming\<close>

lemma trim_last_nonspace:
  assumes "s \<noteq> []" "\<not> isSpace (last s)"
  shows "trim s = dropWhile isSpace s"
proof -
  let ?t = "dropWhile isSpace s"
  have t: "?t \<noteq> []" using assms by (rule dropWhile_nonempty_last)
  then have "last ?t = last s" by (rule dropWhile_last)
  then have "\<not> isSpace (hd (rev ?t))" using assms t by (simp add: hd_rev)
  moreover have "rev ?t \<noteq> []" using t by simp
  ultimately have "dropWhile isSpace (rev ?t) = rev ?t" by (cases "rev ?t") auto
  then show ?thesis by (simp add: trim_def)
qed


subsection \<open>Steps 4 and 5\<close>

lemma endsWith_single: "endsWith s [d] \<longleftrightarrow> s \<noteq> [] \<and> last s = d"
  by (cases s rule: rev_cases) (auto simp: endsWith_def suffix_def)

lemma assertive_last: "assertive s \<noteq> [] \<and> last (assertive s) = 0x3002"
  by (auto simp: assertive_def endsWith_single maru_def)

lemma simplify_normal:
  assumes "s \<noteq> []" "last s = 0x3002"
  shows "normal (simplify s)"
proof -
  let ?d = "replace_g (Seq (Str [0x3002]) (Plus (Only 0x3002))) [0x3002] s"
  let ?w = "replace_g (Plus Space) [0x20] ?d"
  have d: "?d \<noteq> []" "last ?d = 0x3002" "\<not> str_includes ?d [0x3002, 0x3002]"
    using assms by (simp_all add: dots_empty_iff dots_last dots_no_pair)
  have w: "?w \<noteq> []" "last ?w = 0x3002" "\<not> str_includes ?w [0x3002, 0x3002]" "tidy ?w"
    using d by (simp_all add: spaces_empty_iff spaces_last spaces_no_pair spaces_tidy
        not_isSpace_maru)
  have s: "simplify s = dropWhile isSpace ?w"
    using w by (simp add: simplify_def maru_def space_def trim_last_nonspace not_isSpace_maru)
  have ne: "dropWhile isSpace ?w \<noteq> []"
    using w(1) by (rule dropWhile_nonempty_last) (simp add: w(2) not_isSpace_maru)
  then have "last (dropWhile isSpace ?w) = last ?w" by (rule dropWhile_last)
  then have "last (dropWhile isSpace ?w) = 0x3002" by (simp only: w(2))
  moreover have "\<not> str_includes (dropWhile isSpace ?w) [0x3002, 0x3002]"
    using w(3) by (rule str_includes_dropWhile)
  moreover have "tidy (dropWhile isSpace ?w)" using w(4) by (rule tidy_dropWhile)
  moreover have "\<not> isSpace (hd (dropWhile isSpace ?w))" using ne by (rule hd_dropWhile)
  ultimately show ?thesis using ne unfolding normal_def s by blast
qed

lemma normal_fixed:
  assumes "normal s"
  shows "simplify (assertive s) = s"
proof -
  from assms have s: "s \<noteq> []" "last s = 0x3002" "\<not> str_includes s [0x3002, 0x3002]" "tidy s"
    "\<not> isSpace (hd s)"
    unfolding normal_def by simp_all
  have a: "assertive s = s" using s by (simp add: assertive_def endsWith_single maru_def)
  have d: "replace_g (Seq (Str [0x3002]) (Plus (Only 0x3002))) [0x3002] s = s"
    using s(3) by (rule dots_id)
  have w: "replace_g (Plus Space) [0x20] s = s" using s(4) by (rule tidy_spaces_id)
  have "dropWhile isSpace s = s" using s(1,5) by (cases s) auto
  then have "trim s = s" using s by (simp add: trim_last_nonspace not_isSpace_maru)
  then show ?thesis by (simp add: a simplify_def maru_def space_def d w)
qed

lemma formatToPod021Style_normal: "normal (formatToPod021Style t c)"
  unfolding formatToPod021Style_def Let_def
  using assertive_last by (intro simplify_normal) simp_all

subsection \<open>Rules that match nowhere\<close>

lemma replace_g_no_match:
  "(\<And>t. suffix t s \<Longrightarrow> matchAt r t = None) \<Longrightarrow> replace_g r rep s = s"
proof (induction s)
  case Nil
  then show ?case by (simp add: replace_g.simps)
next
  case (Cons x xs)
  have "matchAt r (x # xs) = None" using Cons.prems by simp
  moreover have "replace_g r rep xs = xs"
    using Cons.prems by (intro Cons.IH) (simp add: suffix_Cons)
  ultimately show ?case by (simp add: replace_g.simps)
qed

lemma not_includes_suffix:
  assumes "\<not> str_includes s p" "suffix t s"
  shows "\<not> prefix p t"
proof
  assume "prefix p t"
  then obtain b where "t = p @ b" by (auto simp: prefix_def)
  moreover from assms(2) obtain a where "s = a @ t" by (auto simp: suffix_def)
  ultimately have "s = a @ p @ b" by simp
  then have "str_includes s p" unfolding str_includes_iff by blast
  with assms(1) show False by simp
qed

lemma replace_g_Str_id: "\<not> str_includes s p \<Longrightarrow> replace_g (Str p) rep s = s"
  by (rule replace_g_no_match) (simp add: matchAt_def not_includes_suffix)

lemma replace_g_StrOpt_id:
  "\<not> str_includes s p \<Longrightarrow> replace_g (Seq (Str p) (Opt (Str q))) rep s = s"
  by (rule replace_g_no_match) (simp add: matchAt_def not_includes_suffix)

lemma applyRules_id:
  assumes "\<forall>p \<in> set patterns. \<not> str_includes s p"
  shows "applyRules podRules (applyRules emotionRules (applyRules politeRules s)) = s"
proof -
  have 1: "applyRules politeRules s = s"
    using assms
    by (simp add: applyRules_def politeRules_def patterns_def replace_g_Str_id
        replace_g_StrOpt_id)
  have 2: "applyRules emotionRules s = s"
    using assms by (simp add: applyRules_def emotionRules_def patterns_def replace_g_Str_id)
  have 3: "applyRules podRules s = s"
    using assms by (simp add: applyRules_def podRules_def patterns_def replace_g_Str_id)
  show ?thesis by (simp add: 1 2 3)
qed

subsection \<open>The result of the transformer\<close>

text \<open>
  Claim C10.  For every text and type the result of \<open>formatToPod021Style\<close> is not
  empty, ends with the terminal mark and nowhere has two terminal marks side by side; for
  the empty text the result is the terminal mark alone.
\<close>

theorem formatToPod021Style_shape:
  "formatToPod021Style t c \<noteq> []
   \<and> endsWith (formatToPod021Style t c) maru
   \<and> \<not> str_includes (formatToPod021Style t c) (maru @ maru)
   \<and> formatToPod021Style [] c = maru"
proof -
  have "normal (formatToPod021Style t c)" by (rule formatToPod021Style_normal)
  moreover have "formatToPod021Style [] c = maru" by code_simp
  ultimately show ?thesis by (simp add: normal_def endsWith_single maru_def)
qed

text \<open>
  Claim C1 says that the transformer applied to its own result changes nothing.  For the
  text de, otsukaresama, su the second pass does change the result: the first pass deletes
  otsukaresama after the rule for desu has run, and what it returns, desu and the terminal
  mark, is shortened to the terminal mark alone by the second pass.
\<close>

theorem formatToPod021Style_not_idempotent:
  "formatToPod021Style (formatToPod021Style ex_bad Houkoku) Houkoku
     \<noteq> formatToPod021Style ex_bad Houkoku"
  by code_simp

text \<open>
  Claim C1, amended.  The normalization of the terminal mark, steps 4 and 5, is idempotent
  on every string; and the transformer applied a second time changes nothing whenever its
  first result holds none of the patterns of steps 1 to 3.
\<close>

theorem formatToPod021Style_idempotent_when_clean:
  "simplify (assertive (simplify (assertive s))) = simplify (assertive s)
   \<and> ((\<forall>p \<in> set patterns. \<not> str_includes (formatToPod021Style t c) p)
       \<longrightarrow> formatToPod021Style (formatToPod021Style t c) c = formatToPod021Style t c)"
proof (intro conjI impI)
  have "normal (simplify (assertive s))" using assertive_last by (intro simplify_normal) simp_all
  then show "simplify (assertive (simplify (assertive s))) = simplify (assertive s)"
    by (rule normal_fixed)
next
  let ?o = "formatToPod021Style t c"
  assume "\<forall>p \<in> set patterns. \<not> str_includes ?o p"
  then have "applyRules podRules (applyRules emotionRules (applyRules politeRules ?o)) = ?o"
    by (rule applyRules_id)
  then have "formatToPod021Style ?o c = simplify (assertive ?o)"
    by (simp add: formatToPod021Style_def [of ?o] Let_def)
  also have "\<dots> = ?o" using formatToPod021Style_normal by (rule normal_fixed)
  finally show "formatToPod021Style ?o c = ?o" .
qed

text \<open>
  At the sentence about the enjoyable day: the first pass rewrites tanoshii, and its result
  holds no pattern.
\<close>

theorem formatToPod021Style_idempotent_when_clean_witness:
  "list_all (\<lambda>p. \<not> str_includes (formatToPod021Style ex_day Houkoku) p) patterns
   \<and> formatToPod021Style (formatToPod021Style ex_day Houkoku) Houkoku
       = formatToPod021Style ex_day Houkoku
   \<and> formatToPod021Style ex_day Houkoku \<noteq> ex_day"
proof -
  have a: "list_all (\<lambda>p. \<not> str_includes (formatToPod021Style ex_day Houkoku) p) patterns"
    by code_simp
  have b: "formatToPod021Style ex_day Houkoku \<noteq> ex_day" by code_simp
  show ?thesis
    using a b formatToPod021Style_idempotent_when_clean [of "[]" ex_day Houkoku]
    by (simp add: list_all_iff)
qed

section \<open>Rounding to binary64\<close>

lemma bitlen_pos: "0 < p \<Longrightarrow> 0 < bitlen p"
  using bitlen_bounds [of p] by (cases "bitlen p \<le> 0") auto

lemma bitlen_powi_bounds:
  assumes "0 < p"
  shows "2 powi (bitlen p - 1) \<le> (of_int p :: rat)" and "(of_int p :: rat) < 2 powi bitlen p"
proof -
  from assms have b: "0 < bitlen p" by (rule bitlen_pos)
  from bitlen_bounds [OF assms] have lo: "2 ^ nat (bitlen p - 1) \<le> p" and hi: "p < 2 ^ nat (bitlen p)"
    by simp_all
  have "(2::rat) powi (bitlen p - 1) = 2 ^ nat (bitlen p - 1)"
    using b by (simp add: power_int_def)
  also have "\<dots> = of_int (2 ^ nat (bitlen p - 1))" by simp
  also have "\<dots> \<le> of_int p" using lo by (simp only: of_int_le_iff)
  finally show "2 powi (bitlen p - 1) \<le> (of_int p :: rat)" .
  have "(of_int p :: rat) < of_int (2 ^ nat (bitlen p))" using hi by (simp only: of_int_less_iff)
  also have "\<dots> = 2 ^ nat (bitlen p)" by simp
  also have "\<dots> = 2 powi bitlen p" using b by (simp add: power_int_def)
  finally show "(of_int p :: rat) < 2 powi bitlen p" .
qed

lemma expo_bounds:
  assumes "0 < x"
  shows "2 powi expo x \<le> x" and "x < 2 powi (expo x + 1)"
proof -
  obtain p q where pq: "quotient_of x = (p, q)" by (cases "quotient_of x")
  then have q: "0 < q" by (rule quotient_of_denom_pos)
  from pq have x: "x = of_int p / of_int q" by (rule quotient_of_div)
  have p: "0 < p" using assms q x by (simp add: zero_less_divide_iff)
  let ?d = "bitlen p - bitlen q"
  have qr: "(0::rat) < of_int q" using q by simp
  have A: "2 powi (?d - 1) \<le> x"
  proof -
    have "(of_int q :: rat) * 2 powi (?d - 1) \<le> 2 powi bitlen q * 2 powi (?d - 1)"
      using bitlen_powi_bounds(2) [OF q] by (intro mult_right_mono) simp_all
    also have "\<dots> = 2 powi (bitlen q + (?d - 1))" by (rule power_int_add [symmetric]) simp
    also have "\<dots> = 2 powi (bitlen p - 1)" by simp
    also have "\<dots> \<le> of_int p" by (rule bitlen_powi_bounds(1) [OF p])
    finally show ?thesis using qr unfolding x by (simp add: pos_le_divide_eq mult.commute)
  qed
  have B: "x < 2 powi (?d + 1)"
  proof -
    have "(of_int p :: rat) < 2 powi bitlen p" by (rule bitlen_powi_bounds(2) [OF p])
    also have "\<dots> = 2 powi ((?d + 1) + (bitlen q - 1))" by simp
    also have "\<dots> = 2 powi (?d + 1) * 2 powi (bitlen q - 1)"
      by (rule power_int_add) simp
    also have "\<dots> \<le> 2 powi (?d + 1) * of_int q"
      using bitlen_powi_bounds(1) [OF q] by (intro mult_left_mono) simp_all
    finally show ?thesis using qr unfolding x by (simp add: pos_divide_less_eq)
  qed
  show "2 powi expo x \<le> x"
  proof (cases "of_int q * 2 powi ?d \<le> (of_int p :: rat)")
    case True
    then have "expo x = ?d" by (simp add: expo_def pq)
    moreover have "2 powi ?d \<le> x" using True qr unfolding x
      by (simp add: pos_le_divide_eq mult.commute)
    ultimately show ?thesis by simp
  next
    case False
    then have "expo x = ?d - 1" by (simp add: expo_def pq)
    with A show ?thesis by simp
  qed
  show "x < 2 powi (expo x + 1)"
  proof (cases "of_int q * 2 powi ?d \<le> (of_int p :: rat)")
    case True
    then have "expo x = ?d" by (simp add: expo_def pq)
    with B show ?thesis by simp
  next
    case False
    then have "expo x = ?d - 1" by (simp add: expo_def pq)
    moreover have "x < 2 powi ?d" using False qr unfolding x
      by (simp add: pos_divide_less_eq mult.commute not_le)
    ultimately show ?thesis by simp
  qed
qed


lemma expo_unique:
  assumes "2 powi k \<le> x" "x < 2 powi (k + 1)"
  shows "expo x = k"
proof -
  have "(0::rat) < 2 powi k" by (rule zero_less_power_int) simp
  then have x: "0 < x" using assms(1) by (rule less_le_trans)
  have "(2::rat) powi k < 2 powi (expo x + 1)"
    using assms(1) expo_bounds(2) [OF x] by (rule le_less_trans)
  then have "\<not> expo x + 1 \<le> k"
    using power_int_increasing [of "expo x + 1" k "2::rat"] by auto
  moreover have "(2::rat) powi expo x < 2 powi (k + 1)"
    using expo_bounds(1) [OF x] assms(2) by (rule le_less_trans)
  then have "\<not> k + 1 \<le> expo x"
    using power_int_increasing [of "k + 1" "expo x" "2::rat"] by auto
  ultimately show ?thesis by simp
qed

lemma round_even_of_int: "round_even (of_int n) = n"
  by (simp add: round_even_def)

lemma round_even_range: "\<lfloor>q\<rfloor> \<le> round_even q \<and> round_even q \<le> \<lfloor>q\<rfloor> + 1"
  by (simp add: round_even_def Let_def)

lemma round_even_mono:
  assumes "x \<le> y"
  shows "round_even x \<le> round_even y"
proof (cases "\<lfloor>x\<rfloor> = \<lfloor>y\<rfloor>")
  case True
  then have "x - of_int \<lfloor>x\<rfloor> \<le> y - of_int \<lfloor>y\<rfloor>" using assms by simp
  then show ?thesis using True by (auto simp: round_even_def Let_def)
next
  case False
  then have "\<lfloor>x\<rfloor> < \<lfloor>y\<rfloor>" using floor_mono [OF assms] by simp
  then have "round_even x \<le> \<lfloor>y\<rfloor>" using round_even_range [of x] by simp
  then show ?thesis using round_even_range [of y] by simp
qed


lemma fl_pos_eq:
  "0 < x \<Longrightarrow> fl x = of_int (round_even (x / 2 powi (expo x - 52))) * 2 powi (expo x - 52)"
  by (simp add: fl_def Let_def)

lemma powi_52: "(2::rat) powi e = of_int (2 ^ 52) * 2 powi (e - 52)"
proof -
  have "(2::rat) powi (int 52 + (e - 52)) = 2 powi int 52 * 2 powi (e - 52)"
    by (rule power_int_add) simp
  moreover have "int 52 + (e - 52) = e" by simp
  moreover have "(2::rat) powi int 52 = of_int (2 ^ 52)" by (simp only: power_int_of_nat) simp
  ultimately show ?thesis by (simp only:)
qed

lemma powi_53: "(2::rat) powi (e + 1) = of_int (2 ^ 53) * 2 powi (e - 52)"
proof -
  have "(2::rat) powi (int 53 + (e - 52)) = 2 powi int 53 * 2 powi (e - 52)"
    by (rule power_int_add) simp
  moreover have "int 53 + (e - 52) = e + 1" by simp
  moreover have "(2::rat) powi int 53 = of_int (2 ^ 53)" by (simp only: power_int_of_nat) simp
  ultimately show ?thesis by (simp only:)
qed

lemma significand_bounds:
  assumes "0 < x"
  shows "2 ^ 52 \<le> round_even (x / 2 powi (expo x - 52))"
    and "round_even (x / 2 powi (expo x - 52)) \<le> 2 ^ 53"
proof -
  let ?u = "(2::rat) powi (expo x - 52)"
  have u: "0 < ?u" by (rule zero_less_power_int) simp
  have e: "(2::rat) powi expo x = of_int (2 ^ 52) * ?u" by (rule powi_52)
  have e1: "(2::rat) powi (expo x + 1) = of_int (2 ^ 53) * ?u" by (rule powi_53)
  have "of_int (2 ^ 52) * ?u \<le> x" using expo_bounds(1) [OF assms] by (simp only: e)
  then have "of_int (2 ^ 52) \<le> x / ?u" using u by (simp only: pos_le_divide_eq)
  then have "round_even (of_int (2 ^ 52)) \<le> round_even (x / ?u)" by (rule round_even_mono)
  then show "2 ^ 52 \<le> round_even (x / ?u)" by (simp only: round_even_of_int)
  have "x < of_int (2 ^ 53) * ?u" using expo_bounds(2) [OF assms] by (simp only: e1)
  then have "x \<le> of_int (2 ^ 53) * ?u" by (rule less_imp_le)
  then have "x / ?u \<le> of_int (2 ^ 53)" using u by (simp only: pos_divide_le_eq)
  then have "round_even (x / ?u) \<le> round_even (of_int (2 ^ 53))" by (rule round_even_mono)
  then show "round_even (x / ?u) \<le> 2 ^ 53" by (simp only: round_even_of_int)
qed

lemma fl_bounds:
  assumes "0 < x"
  shows "2 powi expo x \<le> fl x" and "fl x \<le> 2 powi (expo x + 1)"
proof -
  let ?u = "(2::rat) powi (expo x - 52)"
  let ?n = "round_even (x / ?u)"
  have u: "0 < ?u" by (rule zero_less_power_int) simp
  have e: "(2::rat) powi expo x = of_int (2 ^ 52) * ?u" by (rule powi_52)
  have e1: "(2::rat) powi (expo x + 1) = of_int (2 ^ 53) * ?u" by (rule powi_53)
  have "(of_int (2 ^ 52) :: rat) \<le> of_int ?n"
    using significand_bounds(1) [OF assms] by (simp only: of_int_le_iff)
  then have "of_int (2 ^ 52) * ?u \<le> of_int ?n * ?u" using u by (intro mult_right_mono) simp_all
  then show "2 powi expo x \<le> fl x" by (simp only: e fl_pos_eq [OF assms])
  have "(of_int ?n :: rat) \<le> of_int (2 ^ 53)"
    using significand_bounds(2) [OF assms] by (simp only: of_int_le_iff)
  then have "of_int ?n * ?u \<le> of_int (2 ^ 53) * ?u" using u by (intro mult_right_mono) simp_all
  then show "fl x \<le> 2 powi (expo x + 1)" by (simp only: e1 fl_pos_eq [OF assms])
qed

lemma fl_pos: "0 < x \<Longrightarrow> 0 < fl x"
proof -
  assume x: "0 < x"
  have "(0::rat) < 2 powi expo x" by (rule zero_less_power_int) simp
  then show "0 < fl x" using fl_bounds(1) [OF x] by (rule less_le_trans)
qed

lemma fl_zero: "fl 0 = 0"
  by (simp add: fl_def)

lemma fl_nonneg: "0 \<le> x \<Longrightarrow> 0 \<le> fl x"
  using fl_pos [of x] by (cases "x = 0") (simp_all add: fl_zero less_imp_le)

lemma fl_mono:
  assumes "0 \<le> x" "x \<le> y"
  shows "fl x \<le> fl y"
proof (cases "x = 0")
  case True
  then show ?thesis using assms fl_nonneg [of y] by (simp add: fl_zero)
next
  case False
  then have x: "0 < x" using assms(1) by simp
  then have y: "0 < y" using assms(2) by simp
  have "(2::rat) powi expo x < 2 powi (expo y + 1)"
    using expo_bounds(1) [OF x] expo_bounds(2) [OF y] assms(2) by linarith
  then have "\<not> expo y + 1 \<le> expo x"
    using power_int_increasing [of "expo y + 1" "expo x" "2::rat"] by auto
  then have le: "expo x \<le> expo y" by simp
  show ?thesis
  proof (cases "expo x = expo y")
    case True
    let ?u = "(2::rat) powi (expo x - 52)"
    have u: "0 < ?u" by (rule zero_less_power_int) simp
    have "x / ?u \<le> y / ?u" using assms(2) u by (simp add: divide_right_mono)
    then have "round_even (x / ?u) \<le> round_even (y / ?u)" by (rule round_even_mono)
    then have "(of_int (round_even (x / ?u)) :: rat) \<le> of_int (round_even (y / ?u))"
      by (simp only: of_int_le_iff)
    then have "of_int (round_even (x / ?u)) * ?u \<le> of_int (round_even (y / ?u)) * ?u"
      using u by (intro mult_right_mono) simp_all
    then show ?thesis using True by (simp only: fl_pos_eq [OF x] fl_pos_eq [OF y])
  next
    case False
    with le have "expo x + 1 \<le> expo y" by simp
    then have "(2::rat) powi (expo x + 1) \<le> 2 powi expo y"
      by (rule power_int_increasing) simp
    then show ?thesis using fl_bounds(2) [OF x] fl_bounds(1) [OF y] by linarith
  qed
qed

lemma fl_idem:
  assumes "0 \<le> x"
  shows "fl (fl x) = fl x"
proof (cases "x = 0")
  case True
  then show ?thesis by (simp add: fl_zero)
next
  case False
  then have x: "0 < x" using assms by simp
  let ?e = "expo x"
  let ?u = "(2::rat) powi (?e - 52)"
  let ?n = "round_even (x / ?u)"
  have u: "0 < ?u" by (rule zero_less_power_int) simp
  have fx: "fl x = of_int ?n * ?u" by (rule fl_pos_eq [OF x])
  have y: "0 < fl x" by (rule fl_pos [OF x])
  have e: "(2::rat) powi ?e = of_int (2 ^ 52) * ?u" by (rule powi_52)
  have e1: "(2::rat) powi (?e + 1) = of_int (2 ^ 53) * ?u" by (rule powi_53)
  show ?thesis
  proof (cases "?n = 2 ^ 53")
    case True
    then have v: "fl x = 2 powi (?e + 1)" by (simp only: fx e1)
    have "(2::rat) powi (?e + 1) < 2 powi (?e + 1 + 1)"
      by (rule power_int_strict_increasing) simp_all
    then have ex: "expo (fl x) = ?e + 1" unfolding v by (intro expo_unique) simp_all
    have u': "(0::rat) < 2 powi (?e + 1 - 52)" by (rule zero_less_power_int) simp
    have v': "fl x = of_int (2 ^ 52) * 2 powi (?e + 1 - 52)"
      unfolding v by (rule powi_52)
    have "fl x / 2 powi (expo (fl x) - 52) = of_int (2 ^ 52)"
      unfolding ex using u' by (subst v') simp
    then have "round_even (fl x / 2 powi (expo (fl x) - 52)) = 2 ^ 52"
      by (simp only: round_even_of_int)
    then have "fl (fl x) = of_int (2 ^ 52) * 2 powi (?e + 1 - 52)"
      unfolding fl_pos_eq [OF y] ex by (simp only:)
    then show ?thesis by (simp only: v' [symmetric])
  next
    case False
    then have "?n < 2 ^ 53" using significand_bounds(2) [OF x] by simp
    then have "(of_int ?n :: rat) < of_int (2 ^ 53)" by (simp only: of_int_less_iff)
    then have "of_int ?n * ?u < of_int (2 ^ 53) * ?u" using u by (simp only: mult_less_cancel_right_pos)
    then have hi: "fl x < 2 powi (?e + 1)" by (simp only: fx e1)
    have lo: "2 powi ?e \<le> fl x" by (rule fl_bounds(1) [OF x])
    from lo hi have ex: "expo (fl x) = ?e" by (rule expo_unique)
    have "fl x / ?u = of_int ?n" using u fx by simp
    then have "round_even (fl x / ?u) = ?n" by (simp only: round_even_of_int)
    then show ?thesis unfolding fl_pos_eq [OF y] ex using fx by simp
  qed
qed


lemma fl_5: "fl 5 = 5"
  by code_simp

section \<open>The familiarity state\<close>

subsection \<open>One update\<close>

lemma bump_ok:
  assumes "0 \<le> l" "fl l = l" "0 \<le> c"
  shows "0 \<le> bump applies c l" and "fl (bump applies c l) = bump applies c l"
    and "l \<le> bump applies c l"
proof -
  have s: "0 \<le> l + c" using assms by simp
  have "fl l \<le> fl (l + c)" using assms by (intro fl_mono) simp_all
  then have m: "l \<le> fl (l + c)" using assms(2) by simp
  show "0 \<le> bump applies c l" using assms(1) m by (simp add: bump_def)
  show "fl (bump applies c l) = bump applies c l" using assms(2) s by (simp add: bump_def fl_idem)
  show "l \<le> bump applies c l" using m by (simp add: bump_def)
qed

lemma updateIntimacy_alt:
  "updateIntimacy this userMessage botResponse =
     \<lparr>intimacyLevel =
        min (bump (js_rem (fl (interactionCount this + 1)) 20 = 0) (fl (1 / 20))
              (bump (affection userMessage) (fl (3 / 10))
                (bump (gratitude userMessage) (fl (1 / 10)) (intimacyLevel this)))) 5,
      interactionCount = fl (interactionCount this + 1)\<rparr>"
  unfolding updateIntimacy_def [folded gratitude_def affection_def] Let_def bump_def
  by (cases this) auto

lemma updateIntimacy_level:
  "intimacyLevel (updateIntimacy this userMessage botResponse) =
     min (bump (js_rem (fl (interactionCount this + 1)) 20 = 0) (fl (1 / 20))
           (bump (affection userMessage) (fl (3 / 10))
             (bump (gratitude userMessage) (fl (1 / 10)) (intimacyLevel this)))) 5"
  by (simp add: updateIntimacy_alt)

lemma updateIntimacy_ok:
  assumes "0 \<le> intimacyLevel this" "intimacyLevel this \<le> 5" "fl (intimacyLevel this) = intimacyLevel this"
  shows "0 \<le> intimacyLevel (updateIntimacy this u b)"
    and "intimacyLevel (updateIntimacy this u b) \<le> 5"
    and "fl (intimacyLevel (updateIntimacy this u b)) = intimacyLevel (updateIntimacy this u b)"
    and "intimacyLevel this \<le> intimacyLevel (updateIntimacy this u b)"
proof -
  let ?l1 = "bump (gratitude u) (fl (1 / 10)) (intimacyLevel this)"
  let ?l2 = "bump (affection u) (fl (3 / 10)) ?l1"
  let ?l3 = "bump (js_rem (fl (interactionCount this + 1)) 20 = 0) (fl (1 / 20)) ?l2"
  have c: "0 \<le> fl (1 / 10)" "0 \<le> fl (3 / 10)" "0 \<le> fl (1 / 20)"
    by (simp_all add: fl_nonneg)
  note b1 = bump_ok [OF assms(1) assms(3) c(1), of "gratitude u"]
  note b2 = bump_ok [OF b1(1) b1(2) c(2), of "affection u"]
  note b3 = bump_ok [OF b2(1) b2(2) c(3), of "js_rem (fl (interactionCount this + 1)) 20 = 0"]
  have up: "intimacyLevel this \<le> ?l3" using b1(3) b2(3) b3(3) by linarith
  show "0 \<le> intimacyLevel (updateIntimacy this u b)"
    unfolding updateIntimacy_level using b3(1) by simp
  show "intimacyLevel (updateIntimacy this u b) \<le> 5"
    unfolding updateIntimacy_level by simp
  show "fl (intimacyLevel (updateIntimacy this u b)) = intimacyLevel (updateIntimacy this u b)"
    unfolding updateIntimacy_level using b3(2) fl_5 by (simp add: min_def)
  show "intimacyLevel this \<le> intimacyLevel (updateIntimacy this u b)"
    unfolding updateIntimacy_level using up assms(2) by simp
qed

subsection \<open>Sessions\<close>

lemma session_ok:
  assumes "0 \<le> intimacyLevel this" "intimacyLevel this \<le> 5" "fl (intimacyLevel this) = intimacyLevel this"
  shows "0 \<le> intimacyLevel (session this turns) \<and> intimacyLevel (session this turns) \<le> 5
         \<and> fl (intimacyLevel (session this turns)) = intimacyLevel (session this turns)"
  using assms
proof (induction turns arbitrary: this)
  case Nil
  then show ?case by simp
next
  case (Cons turn turns)
  obtain u b where t: "turn = (u, b)" by (cases turn)
  show ?case unfolding t session.simps
    using updateIntimacy_ok(1-3) [OF Cons.prems] by (intro Cons.IH)
qed

lemma new_ok:
  "0 \<le> intimacyLevel new_IntimacyManager" "intimacyLevel new_IntimacyManager \<le> 5"
  "fl (intimacyLevel new_IntimacyManager) = intimacyLevel new_IntimacyManager"
  by (simp_all add: new_IntimacyManager_def fl_zero)

lemma phaseRank_getPhase:
  "phaseRank (getPhase this) =
     (if intimacyLevel this < 1 then 0 else if intimacyLevel this < 2 then 1
      else if intimacyLevel this < 3 then 2 else if intimacyLevel this < 4 then 3 else 4)"
  by (simp add: phaseRank_def getPhase_def phaseLadder_def lits)

lemma phaseRank_mono:
  "intimacyLevel this \<le> intimacyLevel that \<Longrightarrow>
   phaseRank (getPhase this) \<le> phaseRank (getPhase that)"
  unfolding phaseRank_getPhase by (simp split: if_splits)

lemma getPhase_on_ladder: "getPhase this \<in> set phaseLadder"
  by (simp add: getPhase_def phaseLadder_def)

text \<open>
  Claim C4.  After any session that starts from a new intimacy manager, whatever the
  messages and responses are, one more update leaves the level between 0 and 5, does not
  lower the level and does not lower the position of the phase on the ladder shoki,
  kansatsu, shinrai, shinmitsu, kanjouhouga; the phase is a phase of the ladder.  Every
  state of a session is reached this way, so the bounds hold after every call and neither
  the level nor the phase ever goes back.
\<close>

theorem session_level_invariants:
  "0 \<le> getIntimacyLevel (updateIntimacy (session new_IntimacyManager turns) u b)
   \<and> getIntimacyLevel (updateIntimacy (session new_IntimacyManager turns) u b) \<le> 5
   \<and> getIntimacyLevel (session new_IntimacyManager turns)
        \<le> getIntimacyLevel (updateIntimacy (session new_IntimacyManager turns) u b)
   \<and> phaseRank (getPhase (session new_IntimacyManager turns))
        \<le> phaseRank (getPhase (updateIntimacy (session new_IntimacyManager turns) u b))
   \<and> getPhase (updateIntimacy (session new_IntimacyManager turns) u b) \<in> set phaseLadder"
proof -
  let ?s = "session new_IntimacyManager turns"
  have s: "0 \<le> intimacyLevel ?s" "intimacyLevel ?s \<le> 5" "fl (intimacyLevel ?s) = intimacyLevel ?s"
    using session_ok [OF new_ok, of turns] by simp_all
  note up = updateIntimacy_ok [OF s, of u b]
  show ?thesis
    using up(1,2,4) phaseRank_mono [OF up(4)] getPhase_on_ladder
    by (simp add: getIntimacyLevel_def)
qed

subsection \<open>Twenty turns of thanks\<close>

lemma updateIntimacy_thanks:
  assumes "gratitude u" "\<not> affection u"
  shows "updateIntimacy this u b = updateIntimacy this m_arigatou []"
proof -
  have "gratitude m_arigatou" by code_simp
  moreover have "\<not> affection m_arigatou" by code_simp
  ultimately show ?thesis using assms by (simp add: updateIntimacy_alt)
qed

lemma session_thanks:
  assumes "\<forall>(u, b) \<in> set turns. gratitude u \<and> \<not> affection u"
  shows "session this turns = session this (replicate (length turns) (m_arigatou, []))"
  using assms
proof (induction turns arbitrary: this)
  case Nil
  then show ?case by simp
next
  case (Cons turn turns)
  obtain u b where t: "turn = (u, b)" by (cases turn)
  from Cons.prems t have "gratitude u" "\<not> affection u" by simp_all
  then have "updateIntimacy this u b = updateIntimacy this m_arigatou []"
    by (rule updateIntimacy_thanks)
  moreover from Cons.prems have "\<forall>(u, b) \<in> set turns. gratitude u \<and> \<not> affection u" by simp
  ultimately show ?case unfolding t using Cons.IH by simp
qed

lemma thanks_step_1:
  "updateIntimacy \<lparr>intimacyLevel = 0, interactionCount = 0\<rparr> m_arigatou [] =
     \<lparr>intimacyLevel = 3602879701896397 / 36028797018963968, interactionCount = 1\<rparr>"
  by code_simp

lemma thanks_step_2:
  "updateIntimacy \<lparr>intimacyLevel = 3602879701896397 / 36028797018963968, interactionCount = 1\<rparr> m_arigatou [] =
     \<lparr>intimacyLevel = 3602879701896397 / 18014398509481984, interactionCount = 2\<rparr>"
  by code_simp

lemma thanks_step_3:
  "updateIntimacy \<lparr>intimacyLevel = 3602879701896397 / 18014398509481984, interactionCount = 2\<rparr> m_arigatou [] =
     \<lparr>intimacyLevel = 1351079888211149 / 4503599627370496, interactionCount = 3\<rparr>"
  by code_simp

lemma thanks_step_4:
  "updateIntimacy \<lparr>intimacyLevel = 1351079888211149 / 4503599627370496, interactionCount = 3\<rparr> m_arigatou [] =
     \<lparr>intimacyLevel = 3602879701896397 / 9007199254740992, interactionCount = 4\<rparr>"
  by code_simp

lemma thanks_step_5:
  "updateIntimacy \<lparr>intimacyLevel = 3602879701896397 / 9007199254740992, interactionCount = 4\<rparr> m_arigatou [] =
     \<lparr>intimacyLevel = 1 / 2, interactionCount = 5\<rparr>"
  by code_simp

lemma thanks_step_6:
  "updateIntimacy \<lparr>intimacyLevel = 1 / 2, interactionCount = 5\<rparr> m_arigatou [] =
     \<lparr>intimacyLevel = 5404319552844595 / 9007199254740992, interactionCount = 6\<rparr>"
  by code_simp

lemma thanks_step_7:
  "updateIntimacy \<lparr>intimacyLevel = 5404319552844595 / 9007199254740992, interactionCount = 6\<rparr> m_arigatou [] =
     \<lparr>intimacyLevel = 3152519739159347 / 4503599627370496, interactionCount = 7\<rparr>"
  by code_simp

lemma thanks_step_8:
  "updateIntimacy \<lparr>intimacyLevel = 3152519739159347 / 4503599627370496, interactionCount = 7\<rparr> m_arigatou [] =
     \<lparr>intimacyLevel = 7205759403792793 / 9007199254740992, interactionCount = 8\<rparr>"
  by code_simp

lemma thanks_step_9:
  "updateIntimacy \<lparr>intimacyLevel = 7205759403792793 / 9007199254740992, interactionCount = 8\<rparr> m_arigatou [] =
     \<lparr>intimacyLevel = 2026619832316723 / 2251799813685248, interactionCount = 9\<rparr>"
  by code_simp

lemma thanks_step_10:
  "updateIntimacy \<lparr>intimacyLevel = 2026619832316723 / 2251799813685248, interactionCount = 9\<rparr> m_arigatou [] =
     \<lparr>intimacyLevel = 9007199254740991 / 9007199254740992, interactionCount = 10\<rparr>"
  by code_simp

lemma thanks_step_11:
  "updateIntimacy \<lparr>intimacyLevel = 9007199254740991 / 9007199254740992, interactionCount = 10\<rparr> m_arigatou [] =
     \<lparr>intimacyLevel = 4953959590107545 / 4503599627370496, interactionCount = 11\<rparr>"
  by code_simp

lemma thanks_step_12:
  "updateIntimacy \<lparr>intimacyLevel = 4953959590107545 / 4503599627370496, interactionCount = 11\<rparr> m_arigatou [] =
     \<lparr>intimacyLevel = 5404319552844595 / 4503599627370496, interactionCount = 12\<rparr>"
  by code_simp

lemma thanks_step_13:
  "updateIntimacy \<lparr>intimacyLevel = 5404319552844595 / 4503599627370496, interactionCount = 12\<rparr> m_arigatou [] =
     \<lparr>intimacyLevel = 5854679515581645 / 4503599627370496, interactionCount = 13\<rparr>"
  by code_simp

lemma thanks_step_14:
  "updateIntimacy \<lparr>intimacyLevel = 5854679515581645 / 4503599627370496, interactionCount = 13\<rparr> m_arigatou [] =
     \<lparr>intimacyLevel = 6305039478318695 / 4503599627370496, interactionCount = 14\<rparr>"
  by code_simp

lemma thanks_step_15:
  "updateIntimacy \<lparr>intimacyLevel = 6305039478318695 / 4503599627370496, interactionCount = 14\<rparr> m_arigatou [] =
     \<lparr>intimacyLevel = 6755399441055745 / 4503599627370496, interactionCount = 15\<rparr>"
  by code_simp

lemma thanks_step_16:
  "updateIntimacy \<lparr>intimacyLevel = 6755399441055745 / 4503599627370496, interactionCount = 15\<rparr> m_arigatou [] =
     \<lparr>intimacyLevel = 7205759403792795 / 4503599627370496, interactionCount = 16\<rparr>"
  by code_simp

lemma thanks_step_17:
  "updateIntimacy \<lparr>intimacyLevel = 7205759403792795 / 4503599627370496, interactionCount = 16\<rparr> m_arigatou [] =
     \<lparr>intimacyLevel = 7656119366529845 / 4503599627370496, interactionCount = 17\<rparr>"
  by code_simp

lemma thanks_step_18:
  "updateIntimacy \<lparr>intimacyLevel = 7656119366529845 / 4503599627370496, interactionCount = 17\<rparr> m_arigatou [] =
     \<lparr>intimacyLevel = 8106479329266895 / 4503599627370496, interactionCount = 18\<rparr>"
  by code_simp

lemma thanks_step_19:
  "updateIntimacy \<lparr>intimacyLevel = 8106479329266895 / 4503599627370496, interactionCount = 18\<rparr> m_arigatou [] =
     \<lparr>intimacyLevel = 8556839292003945 / 4503599627370496, interactionCount = 19\<rparr>"
  by code_simp

lemma thanks_step_20:
  "updateIntimacy \<lparr>intimacyLevel = 8556839292003945 / 4503599627370496, interactionCount = 19\<rparr> m_arigatou [] =
     \<lparr>intimacyLevel = 4616189618054759 / 2251799813685248, interactionCount = 20\<rparr>"
  by code_simp

lemmas thanks_steps =
  thanks_step_1 thanks_step_2 thanks_step_3 thanks_step_4 thanks_step_5 thanks_step_6
  thanks_step_7 thanks_step_8 thanks_step_9 thanks_step_10 thanks_step_11 thanks_step_12
  thanks_step_13 thanks_step_14 thanks_step_15 thanks_step_16 thanks_step_17 thanks_step_18
  thanks_step_19 thanks_step_20

lemma replicate_20:
  "replicate 20 x = [x, x, x, x, x, x, x, x, x, x, x, x, x, x, x, x, x, x, x, x]"
  by (simp add: numeral_eq_Suc)

lemma session_thanks20:
  "session new_IntimacyManager (replicate 20 (m_arigatou, [])) =
     \<lparr>intimacyLevel = 4616189618054759 / 2251799813685248, interactionCount = 20\<rparr>"
  unfolding replicate_20 new_IntimacyManager_def session.simps thanks_steps ..

lemma level_thanks20: "(4616189618054759 / 2251799813685248 :: rat) = fl (41 / 20) + 1 / 2 ^ 51"
  by code_simp

text \<open>
  Claim C3 says that twenty turns of thanks bring a new intimacy manager to the level
  2.05.  They do not: after twenty turns with the message arigatou the level is neither the
  rational number 2.05 nor the binary64 value of the literal 2.05.
\<close>

theorem twenty_gratitude_turns_counterexample:
  "length ex_thanks20 = 20
   \<and> list_all (\<lambda>(u, b). gratitude u \<and> \<not> affection u) ex_thanks20
   \<and> getIntimacyLevel (session new_IntimacyManager ex_thanks20) \<noteq> 41 / 20
   \<and> getIntimacyLevel (session new_IntimacyManager ex_thanks20) \<noteq> fl (41 / 20)"
proof -
  have "gratitude m_arigatou" by code_simp
  moreover have "\<not> affection m_arigatou" by code_simp
  moreover have "(4616189618054759 / 2251799813685248 :: rat) \<noteq> 41 / 20" by simp
  moreover have "(4616189618054759 / 2251799813685248 :: rat) \<noteq> fl (41 / 20)"
    unfolding level_thanks20 by simp
  ultimately show ?thesis
    by (simp add: ex_thanks20_def session_thanks20 getIntimacyLevel_def list_all_iff)
qed

text \<open>
  Claim C3, amended.  Twenty turns whose user messages each hold a gratitude marker and no
  pair of the persona marker and an affection marker bring a new intimacy manager to the
  level 4616189618054759 / 2251799813685248, printed 2.0500000000000003: each of the twenty
  additions of 0.1 and the addition of 0.05 at the twentieth turn is rounded, and the
  result is the binary64 value of 2.05 plus one unit in its last place.  The phase is
  shinrai.
\<close>

theorem twenty_gratitude_turns:
  assumes "length turns = 20" and "\<forall>(u, b) \<in> set turns. gratitude u \<and> \<not> affection u"
  shows "getIntimacyLevel (session new_IntimacyManager turns) = fl (41 / 20) + 1 / 2 ^ 51
         \<and> getIntimacyLevel (session new_IntimacyManager turns)
             = 4616189618054759 / 2251799813685248
         \<and> getPhase (session new_IntimacyManager turns) = ph_shinrai"
proof -
  have "session new_IntimacyManager turns =
      \<lparr>intimacyLevel = 4616189618054759 / 2251799813685248, interactionCount = 20\<rparr>"
    using session_thanks [OF assms(2)] assms(1) by (simp only: session_thanks20)
  then have l: "getIntimacyLevel (session new_IntimacyManager turns)
        = 4616189618054759 / 2251799813685248"
    and p: "getPhase (session new_IntimacyManager turns) = ph_shinrai"
    by (simp_all add: getIntimacyLevel_def getPhase_def)
  from l level_thanks20 have "getIntimacyLevel (session new_IntimacyManager turns)
      = fl (41 / 20) + 1 / 2 ^ 51"
    by (rule trans)
  with l p show ?thesis by (intro conjI)
qed

text \<open>At twenty turns with the message arigatou and an empty response.\<close>

theorem twenty_gratitude_turns_witness:
  "length ex_thanks20 = 20
   \<and> list_all (\<lambda>(u, b). gratitude u \<and> \<not> affection u) ex_thanks20
   \<and> getIntimacyLevel (session new_IntimacyManager ex_thanks20)
       = 4616189618054759 / 2251799813685248
   \<and> getPhase (session new_IntimacyManager ex_thanks20) = ph_shinrai"
proof -
  have a: "length ex_thanks20 = 20" by (simp add: ex_thanks20_def)
  have "gratitude m_arigatou" by code_simp
  moreover have "\<not> affection m_arigatou" by code_simp
  ultimately have b: "\<forall>(u, b) \<in> set ex_thanks20. gratitude u \<and> \<not> affection u"
    by (simp add: ex_thanks20_def)
  show ?thesis using a b twenty_gratitude_turns [OF a b] by (simp add: list_all_iff)
qed

section \<open>Two examples of the specification\<close>

text \<open>
  The sentence about the enjoyable day: tanoshii becomes kouritsuteki and the result ends
  with one terminal mark.
\<close>

lemma example_transform:
  "formatToPod021Style ex_day Houkoku =
     [0x4ECA, 0x65E5, 0x306F, 0x52B9, 0x7387, 0x7684, 0x4E00, 0x65E5, 0x3060, 0x3063, 0x305F,
      0x3002]"
  by code_simp

text \<open>
  The assembled acknowledgment: the type shounin, the full-width colon, the content, a
  space and the count annotation.
\<close>

lemma example_assemble:
  "generatePod021Response
     \<lparr>type = label Shounin,
      content = [0x30EA, 0x30B9, 0x30C8, 0x306B, 0x8FFD, 0x52A0, 0x3057, 0x305F],
      additionalInfo = Some ex_count_info\<rparr> =
   Inr ([0x627F, 0x8A8D, 0xFF1A, 0x30EA, 0x30B9, 0x30C8, 0x306B, 0x8FFD, 0x52A0, 0x3057, 0x305F,
         0x0020] @ ex_count_info)"
  by (simp add: generatePod021Response_def ex_count_info_def lits)

end
